theory Spec2Isabelle
  imports Main "HOL-Library.Sublist" "HOL-Library.Char_ord" "HOL-Library.List_Lexorder"
begin

section \<open>Python values shared by both modules\<close>

text \<open>
  Strings are \<open>string\<close> (lists of 8-bit characters). The code only compares characters
  for equality and order, slices and concatenates, so nothing depends on the encoding.
  Backslash is \<open>CHR 0x5C\<close> and newline is \<open>CHR 0x0A\<close>.
\<close>

definition startswith :: "string \<Rightarrow> string \<Rightarrow> bool" where
  "startswith s p = prefix p s"

text \<open>\<open>needle in haystack\<close> on strings.\<close>

fun str_contains :: "string \<Rightarrow> string \<Rightarrow> bool" where
  "str_contains needle [] = (needle = [])"
| "str_contains needle (c # cs) = (prefix needle (c # cs) \<or> str_contains needle cs)"

text \<open>
  The exceptions the modelled code raises: \<open>HTTPException(status_code, detail)\<close> in
  \<open>app.py\<close>, the \<open>AttributeError\<close> of \<open>.get\<close> or \<open>.split\<close> on a JSON value that is
  not a dict or a string, and the \<open>TypeError\<close> of \<open>"<" in None\<close> in
  \<open>data_transformer.py\<close>.
\<close>

datatype py_exception = HTTPException nat string | AttributeError | TypeError

text \<open>
  A JSON object's field that holds a string: the key is absent, the value is null, or it
  is the string. A field that holds an object: the key is absent, the value is an object,
  or it is anything else (null, a list, a string), on which \<open>.get\<close> raises.
\<close>

datatype json_str = Absent | Null | Str string

datatype 'a json_obj = ObjAbsent | ObjNotDict | ObjDict 'a

text \<open>\<open>obj.get(key)\<close> on a string field.\<close>

definition json_get :: "json_str \<Rightarrow> string option" where
  "json_get field = (case field of Absent \<Rightarrow> None | Null \<Rightarrow> None | Str s \<Rightarrow> Some s)"

section \<open>app.py: the GitHub command line as an environment\<close>

text \<open>
  \<open>run_gh_command(command)\<close> runs a subprocess; it either raises
  \<open>HTTPException(500, detail)\<close> or returns the parsed JSON. The subprocess is the
  environment of the model: for each command line the reply is \<open>GhRaises detail\<close> or
  \<open>GhReturns json\<close>. The JSON is typed by endpoint: a list endpoint returns a list of
  entries or something that is not a list (\<open>{}\<close> on empty output).
\<close>

datatype 'a gh_reply = GhRaises string | GhReturns 'a

datatype 'e json_reply = JsonList "'e list" | JsonNotList

text \<open>An entry of \<open>gh repo list --json name,url\<close>; \<open>None\<close> is an absent key.\<close>

record repo_entry =
  entry_name :: "string option"
  entry_url :: "string option"

text \<open>
  The reply to \<open>git/refs/tags/{tag}\<close>: a dict, of which \<open>get_tag_commit_info\<close> reads
  \<open>object\<close> and in it \<open>sha\<close>, or JSON that is not a dict (the API answers a prefix of
  several references with a list).
\<close>

datatype tag_ref_json = RefNotDict | RefDict "json_str json_obj"

text \<open>
  The reply to \<open>commits/{sha}\<close>: a dict, of which \<open>get_tag_commit_info\<close> reads
  \<open>commit.author.name\<close>, \<open>commit.author.date\<close> and \<open>commit.message\<close>, or JSON that
  is not a dict.
\<close>

record commit_author =
  author_name :: json_str
  author_date :: json_str

record commit_body =
  body_author :: "commit_author json_obj"
  body_message :: json_str

datatype commit_json = CommitNotDict | CommitDict "commit_body json_obj"

text \<open>
  The environment. A tag entry is its \<open>name\<close> value (\<open>None\<close> when absent).
  \<open>exception_str\<close> is \<open>str(e)\<close> as the interpreter and the web framework print an
  exception, \<open>clock_start\<close> and \<open>clock_duration\<close> are the two readings of
  \<open>datetime.now()\<close> (the ISO text of the first, the difference in microseconds).
\<close>

record gh_env =
  gh_auth_status :: bool
  gh_repo_list :: "string list \<Rightarrow> repo_entry json_reply gh_reply"
  gh_api_tags :: "string list \<Rightarrow> string option json_reply gh_reply"
  gh_api_tag_ref :: "string list \<Rightarrow> tag_ref_json gh_reply"
  gh_api_commit :: "string list \<Rightarrow> commit_json gh_reply"
  exception_str :: "py_exception \<Rightarrow> string"
  clock_start :: string
  clock_duration :: int

definition check_github_cli :: "gh_env \<Rightarrow> bool" where
  "check_github_cli env = gh_auth_status env"

definition get_repositories :: "gh_env \<Rightarrow> string \<Rightarrow> py_exception + repo_entry list" where
  "get_repositories env org_name =
     (case gh_repo_list env [''repo'', ''list'', org_name, ''--limit'', ''1000'', ''--json'', ''name,url''] of
        GhRaises d \<Rightarrow> Inl (HTTPException 500 d)
      | GhReturns (JsonList repos_data) \<Rightarrow> Inr repos_data
      | GhReturns JsonNotList \<Rightarrow> Inr [])"

definition tags_command :: "string \<Rightarrow> string \<Rightarrow> string list" where
  "tags_command org_name repo_name =
     [''api'', ''repos/'' @ org_name @ ''/'' @ repo_name @ ''/tags'', ''--paginate'']"

text \<open>
  \<open>get_repository_tags\<close>: the names of the listed tags, empty names dropped. An
  \<open>HTTPException\<close> is swallowed only when its detail contains \<open>404\<close>; any other one is
  raised again.
\<close>

definition get_repository_tags :: "gh_env \<Rightarrow> string \<Rightarrow> string \<Rightarrow> py_exception + string list" where
  "get_repository_tags env org_name repo_name =
     (case gh_api_tags env (tags_command org_name repo_name) of
        GhReturns (JsonList tags_data) \<Rightarrow>
          Inr (map (\<lambda>tag. case tag of None \<Rightarrow> '''' | Some n \<Rightarrow> n)
                 (filter (\<lambda>tag. case tag of None \<Rightarrow> False | Some n \<Rightarrow> n \<noteq> '''') tags_data))
      | GhReturns JsonNotList \<Rightarrow> Inr []
      | GhRaises d \<Rightarrow> if str_contains ''404'' d then Inr [] else Inl (HTTPException 500 d))"

text \<open>The dict that \<open>get_tag_commit_info\<close> returns.\<close>

record commit_info =
  info_commit_sha :: string
  info_author :: "string option"
  info_date :: "string option"
  info_message :: string

definition first_line :: "string \<Rightarrow> string" where
  "first_line s = takeWhile (\<lambda>c. c \<noteq> CHR 0x0A) s"

text \<open>
  \<open>tag_ref.get('object', {}).get('sha')\<close>: \<open>Inr None\<close> is Python's \<open>None\<close>, the
  exception is that of \<open>.get\<close> on a value that is not a dict.
\<close>

definition tag_ref_sha :: "tag_ref_json \<Rightarrow> py_exception + string option" where
  "tag_ref_sha tag_ref =
     (case tag_ref of
        RefNotDict \<Rightarrow> Inl AttributeError
      | RefDict obj \<Rightarrow>
          (case obj of
             ObjAbsent \<Rightarrow> Inr None
           | ObjNotDict \<Rightarrow> Inl AttributeError
           | ObjDict sha \<Rightarrow> Inr (json_get sha)))"

text \<open>
  The dict literal that \<open>get_tag_commit_info\<close> returns, from the commit reply:
  \<open>.get('commit', {}).get('author', {}).get('name')\<close>, the same for \<open>date\<close>, and
  \<open>.get('commit', {}).get('message', '').split('\n')[0]\<close>.
\<close>

definition commit_fields :: "string \<Rightarrow> commit_json \<Rightarrow> py_exception + commit_info" where
  "commit_fields sha reply =
     (case reply of
        CommitNotDict \<Rightarrow> Inl AttributeError
      | CommitDict c \<Rightarrow>
          (case c of
             ObjNotDict \<Rightarrow> Inl AttributeError
           | ObjAbsent \<Rightarrow>
               Inr \<lparr> info_commit_sha = sha, info_author = None, info_date = None,
                     info_message = first_line '''' \<rparr>
           | ObjDict body \<Rightarrow>
               (case body_author body of
                  ObjNotDict \<Rightarrow> Inl AttributeError
                | ObjAbsent \<Rightarrow>
                    (case body_message body of
                       Null \<Rightarrow> Inl AttributeError
                     | Absent \<Rightarrow>
                         Inr \<lparr> info_commit_sha = sha, info_author = None, info_date = None,
                               info_message = first_line '''' \<rparr>
                     | Str m \<Rightarrow>
                         Inr \<lparr> info_commit_sha = sha, info_author = None, info_date = None,
                               info_message = first_line m \<rparr>)
                | ObjDict a \<Rightarrow>
                    (case body_message body of
                       Null \<Rightarrow> Inl AttributeError
                     | Absent \<Rightarrow>
                         Inr \<lparr> info_commit_sha = sha, info_author = json_get (author_name a),
                               info_date = json_get (author_date a),
                               info_message = first_line '''' \<rparr>
                     | Str m \<Rightarrow>
                         Inr \<lparr> info_commit_sha = sha, info_author = json_get (author_name a),
                               info_date = json_get (author_date a),
                               info_message = first_line m \<rparr>))))"

text \<open>
  \<open>get_tag_commit_info\<close>: an \<open>HTTPException\<close> of either lookup becomes \<open>None\<close>
  (\<open>except HTTPException: return None\<close>); any other exception leaves the function.
\<close>

definition get_tag_commit_info :: "gh_env \<Rightarrow> string \<Rightarrow> string \<Rightarrow> string \<Rightarrow> py_exception + commit_info option" where
  "get_tag_commit_info env org_name repo_name tag =
     (case gh_api_tag_ref env [''api'', ''repos/'' @ org_name @ ''/'' @ repo_name @ ''/git/refs/tags/'' @ tag] of
        GhRaises d \<Rightarrow> Inr None
      | GhReturns tag_ref \<Rightarrow>
          (case tag_ref_sha tag_ref of
             Inl e \<Rightarrow> Inl e
           | Inr commit_sha \<Rightarrow>
               (case commit_sha of
                  None \<Rightarrow> Inr None
                | Some sha \<Rightarrow>
                    if sha = '''' then Inr None
                    else (case gh_api_commit env [''api'', ''repos/'' @ org_name @ ''/'' @ repo_name @ ''/commits/'' @ sha] of
                            GhRaises d \<Rightarrow> Inr None
                          | GhReturns reply \<Rightarrow>
                              (case commit_fields sha reply of
                                 Inl e \<Rightarrow> Inl e
                               | Inr ci \<Rightarrow> Inr (Some ci))))))"

subsection \<open>TagInfo, ScanResult and the exact-tag scan\<close>

record tag_info =
  tag_name :: string
  commit_id :: string
  author :: "string option"
  date :: "string option"
  message :: "string option"
  repository_name :: string
  repository_url :: string
  tag_url :: string
  repository_path :: "string option"

record scan_result =
  total_repositories_scanned :: nat
  repositories_with_tag :: nat
  tags_found :: "tag_info list"
  scan_timestamp :: string
  scan_duration_seconds :: int

text \<open>
  The \<open>TagInfo(...)\<close> that both organization scans build for a hit, after the call of
  \<open>get_tag_commit_info\<close>, whose exception leaves the scan loop.
\<close>

definition found_tag_info :: "gh_env \<Rightarrow> string \<Rightarrow> string \<Rightarrow> string \<Rightarrow> string \<Rightarrow> py_exception + tag_info" where
  "found_tag_info env org_name repo_name repo_url pattern =
     (case get_tag_commit_info env org_name repo_name pattern of
        Inl e \<Rightarrow> Inl e
      | Inr commit_info \<Rightarrow>
          Inr \<lparr> tag_name = pattern,
                commit_id = (case commit_info of Some ci \<Rightarrow> info_commit_sha ci | None \<Rightarrow> ''''),
                author = (case commit_info of Some ci \<Rightarrow> info_author ci | None \<Rightarrow> None),
                date = (case commit_info of Some ci \<Rightarrow> info_date ci | None \<Rightarrow> None),
                message = (case commit_info of Some ci \<Rightarrow> Some (info_message ci) | None \<Rightarrow> None),
                repository_name = repo_name,
                repository_url = repo_url,
                tag_url = repo_url @ ''/releases/tag/'' @ pattern,
                repository_path = None \<rparr>)"

definition tag_patterns :: "string \<Rightarrow> bool \<Rightarrow> string list" where
  "tag_patterns tag_version include_patterns =
     [tag_version] @
     (if include_patterns \<and> \<not> startswith tag_version ''v'' then [''v'' @ tag_version] else [])"

definition repo_name_of :: "repo_entry \<Rightarrow> string" where
  "repo_name_of repo = (case entry_name repo of None \<Rightarrow> '''' | Some n \<Rightarrow> n)"

definition repo_url_of :: "repo_entry \<Rightarrow> string" where
  "repo_url_of repo = (case entry_url repo of None \<Rightarrow> '''' | Some u \<Rightarrow> u)"

text \<open>
  The inner loop \<open>for pattern in tag_patterns: if pattern in tags: ...; break\<close>: what
  one repository appends to \<open>found_tags\<close>.
\<close>

fun check_patterns :: "gh_env \<Rightarrow> string \<Rightarrow> string \<Rightarrow> string \<Rightarrow> string list \<Rightarrow> string list \<Rightarrow> py_exception + tag_info list" where
  "check_patterns env org_name repo_name repo_url tags [] = Inr []"
| "check_patterns env org_name repo_name repo_url tags (pattern # rest) =
     (if pattern \<in> set tags
      then (case found_tag_info env org_name repo_name repo_url pattern of
              Inl e \<Rightarrow> Inl e
            | Inr tag_info \<Rightarrow> Inr [tag_info])
      else check_patterns env org_name repo_name repo_url tags rest)"

text \<open>
  The loop over the repositories; an exception of \<open>get_repository_tags\<close> or of the
  inner loop leaves it.
\<close>

fun scan_tag_repos :: "gh_env \<Rightarrow> string \<Rightarrow> string list \<Rightarrow> repo_entry list \<Rightarrow> tag_info list \<Rightarrow> py_exception + tag_info list" where
  "scan_tag_repos env org_name pats [] found_tags = Inr found_tags"
| "scan_tag_repos env org_name pats (repo # rest) found_tags =
     (if repo_name_of repo = '''' then scan_tag_repos env org_name pats rest found_tags
      else (case get_repository_tags env org_name (repo_name_of repo) of
              Inl e \<Rightarrow> Inl e
            | Inr tags \<Rightarrow>
                (case check_patterns env org_name (repo_name_of repo) (repo_url_of repo) tags pats of
                   Inl e \<Rightarrow> Inl e
                 | Inr new \<Rightarrow> scan_tag_repos env org_name pats rest (found_tags @ new))))"

text \<open>The body of the \<open>try\<close> block, then the handler that wraps every exception.\<close>

definition scan_tag_try :: "gh_env \<Rightarrow> string \<Rightarrow> string \<Rightarrow> bool \<Rightarrow> py_exception + scan_result" where
  "scan_tag_try env org_name tag_version include_patterns =
     (case get_repositories env org_name of
        Inl e \<Rightarrow> Inl e
      | Inr repos \<Rightarrow>
          (case scan_tag_repos env org_name (tag_patterns tag_version include_patterns) repos [] of
             Inl e \<Rightarrow> Inl e
           | Inr found_tags \<Rightarrow>
               Inr \<lparr> total_repositories_scanned = length repos,
                     repositories_with_tag = length found_tags,
                     tags_found = found_tags,
                     scan_timestamp = clock_start env,
                     scan_duration_seconds = clock_duration env \<rparr>))"

definition scan_organization_for_tag :: "gh_env \<Rightarrow> string \<Rightarrow> string \<Rightarrow> bool \<Rightarrow> py_exception + scan_result" where
  "scan_organization_for_tag env org_name tag_version include_patterns =
     (if \<not> check_github_cli env
      then Inl (HTTPException 500 ''GitHub CLI not available or not authenticated'')
      else (case scan_tag_try env org_name tag_version include_patterns of
              Inl e \<Rightarrow> Inl (HTTPException 500 (''Scan failed: '' @ exception_str env e))
            | Inr r \<Rightarrow> Inr r))"

subsection \<open>Regular expressions: the fragment the pattern scan uses\<close>

text \<open>
  \<open>re.escape\<close> puts a backslash before each of the characters
  \<open>()[]{}?*+-|^$\.&~#\<close>, space, tab, newline, carriage return, vertical tab and form feed.
\<close>

definition re_special_chars :: "char list" where
  "re_special_chars =
     ''()[]{}?*+-|^$'' @ [CHR 0x5C] @ ''.&~# '' @ [CHR 0x09, CHR 0x0A, CHR 0x0D, CHR 0x0B, CHR 0x0C]"

definition re_escape :: "string \<Rightarrow> string" where
  "re_escape s = concat (map (\<lambda>c. if c \<in> set re_special_chars then [CHR 0x5C, c] else [c]) s)"

definition is_ascii_alnum :: "char \<Rightarrow> bool" where
  "is_ascii_alnum c =
     (let n = (of_char c :: nat)
      in (48 \<le> n \<and> n \<le> 57) \<or> (65 \<le> n \<and> n \<le> 90) \<or> (97 \<le> n \<and> n \<le> 122))"

text \<open>
  A regular expression of the fragment is a sequence of items: \<open>^\<close>, \<open>$\<close>, a literal
  character (plain, or a backslash before a character that is not an ASCII letter or digit)
  and \<open>.\<close>. \<open>re_parse\<close> returns \<open>None\<close> for every expression outside the fragment
  (quantifiers, groups, classes, alternation, letter and digit escapes); lemma
  \<open>regex_patterns_parse\<close> below shows that the four rules of the scan are always inside.
\<close>

datatype re_item = Bol | Eol | Lit char | AnyChar

fun re_parse :: "string \<Rightarrow> re_item list option" where
  "re_parse [] = Some []"
| "re_parse (c # cs) =
     (if c = CHR 0x5C then
        (case cs of
           [] \<Rightarrow> None
         | d # ds \<Rightarrow> if is_ascii_alnum d then None else map_option ((#) (Lit d)) (re_parse ds))
      else if c = CHR ''^'' then map_option ((#) Bol) (re_parse cs)
      else if c = CHR ''$'' then map_option ((#) Eol) (re_parse cs)
      else if c = CHR ''.'' then map_option ((#) AnyChar) (re_parse cs)
      else if c \<in> set ''*+?{}[]()|'' then None
      else map_option ((#) (Lit c)) (re_parse cs))"

text \<open>
  Matching at the start of the subject, without flags: \<open>^\<close> holds only at position 0,
  \<open>$\<close> holds at the end and also just before a newline that ends the subject, \<open>.\<close> is
  any character but newline. The flag says whether the position is still 0.
\<close>

fun re_match_items :: "re_item list \<Rightarrow> bool \<Rightarrow> string \<Rightarrow> bool" where
  "re_match_items [] at_start s = True"
| "re_match_items (Bol # items) at_start s = (at_start \<and> re_match_items items at_start s)"
| "re_match_items (Eol # items) at_start s =
     ((s = [] \<or> s = [CHR 0x0A]) \<and> re_match_items items at_start s)"
| "re_match_items (Lit c # items) at_start s =
     (case s of [] \<Rightarrow> False | d # ds \<Rightarrow> d = c \<and> re_match_items items False ds)"
| "re_match_items (AnyChar # items) at_start s =
     (case s of [] \<Rightarrow> False | d # ds \<Rightarrow> d \<noteq> CHR 0x0A \<and> re_match_items items False ds)"

definition re_match :: "string \<Rightarrow> string \<Rightarrow> bool option" where
  "re_match pat s = map_option (\<lambda>items. re_match_items items True s) (re_parse pat)"

definition regex_patterns :: "string \<Rightarrow> string list" where
  "regex_patterns version_pattern =
     (let escaped_pattern = re_escape version_pattern in
      [ ''^'' @ escaped_pattern @ [CHR 0x5C, CHR ''.''],
        ''^v'' @ escaped_pattern @ [CHR 0x5C, CHR ''.''],
        ''^'' @ escaped_pattern @ ''$'',
        ''^v'' @ escaped_pattern @ ''$'' ])"

text \<open>\<open>any(re.match(pattern, tag) for pattern in regex_patterns)\<close>.\<close>

definition tag_matches :: "string list \<Rightarrow> string \<Rightarrow> bool" where
  "tag_matches pats tag = list_ex (\<lambda>pattern. re_match pattern tag = Some True) pats"

subsection \<open>The pattern scan\<close>

text \<open>The loop over \<open>tags[:10]\<close> of one repository, with the cap checked before each tag.\<close>

fun scan_pattern_tags :: "gh_env \<Rightarrow> string \<Rightarrow> string \<Rightarrow> string \<Rightarrow> string list \<Rightarrow> int \<Rightarrow> string list \<Rightarrow> tag_info list \<Rightarrow> py_exception + tag_info list" where
  "scan_pattern_tags env org_name repo_name repo_url pats max_results [] found_tags = Inr found_tags"
| "scan_pattern_tags env org_name repo_name repo_url pats max_results (tag # rest) found_tags =
     (if int (length found_tags) \<ge> max_results then Inr found_tags
      else if tag_matches pats tag
      then (case found_tag_info env org_name repo_name repo_url tag of
              Inl e \<Rightarrow> Inl e
            | Inr tag_info \<Rightarrow>
                scan_pattern_tags env org_name repo_name repo_url pats max_results rest
                  (found_tags @ [tag_info]))
      else scan_pattern_tags env org_name repo_name repo_url pats max_results rest found_tags)"

fun scan_pattern_repos :: "gh_env \<Rightarrow> string \<Rightarrow> string list \<Rightarrow> int \<Rightarrow> repo_entry list \<Rightarrow> tag_info list \<Rightarrow> py_exception + tag_info list" where
  "scan_pattern_repos env org_name pats max_results [] found_tags = Inr found_tags"
| "scan_pattern_repos env org_name pats max_results (repo # rest) found_tags =
     (if repo_name_of repo = '''' \<or> int (length found_tags) \<ge> max_results
      then scan_pattern_repos env org_name pats max_results rest found_tags
      else (case get_repository_tags env org_name (repo_name_of repo) of
              Inl e \<Rightarrow> Inl e
            | Inr tags \<Rightarrow>
                (case scan_pattern_tags env org_name (repo_name_of repo) (repo_url_of repo) pats
                        max_results (take 10 tags) found_tags of
                   Inl e \<Rightarrow> Inl e
                 | Inr found \<Rightarrow> scan_pattern_repos env org_name pats max_results rest found)))"

definition scan_patterns_try :: "gh_env \<Rightarrow> string \<Rightarrow> string \<Rightarrow> int \<Rightarrow> py_exception + scan_result" where
  "scan_patterns_try env org_name version_pattern max_results =
     (case get_repositories env org_name of
        Inl e \<Rightarrow> Inl e
      | Inr repos \<Rightarrow>
          (case scan_pattern_repos env org_name (regex_patterns version_pattern) max_results repos [] of
             Inl e \<Rightarrow> Inl e
           | Inr found_tags \<Rightarrow>
               Inr \<lparr> total_repositories_scanned = length repos,
                     repositories_with_tag = length (remdups (map repository_name found_tags)),
                     tags_found = found_tags,
                     scan_timestamp = clock_start env,
                     scan_duration_seconds = clock_duration env \<rparr>))"

definition scan_organization_for_patterns :: "gh_env \<Rightarrow> string \<Rightarrow> string \<Rightarrow> int \<Rightarrow> py_exception + scan_result" where
  "scan_organization_for_patterns env org_name version_pattern max_results =
     (if \<not> check_github_cli env
      then Inl (HTTPException 500 ''GitHub CLI not available or not authenticated'')
      else (case scan_patterns_try env org_name version_pattern max_results of
              Inl e \<Rightarrow> Inl (HTTPException 500 (''Pattern scan failed: '' @ exception_str env e))
            | Inr r \<Rightarrow> Inr r))"

subsection \<open>The route of the pattern scan\<close>

text \<open>
  The pattern scan is registered with
  \<open>@app.get("/api/v1/scan/organization/{org_name}/patterns/{version_pattern}")\<close> and
  is called by the router only. A path parameter binds one path segment, which is not
  empty and has no slash. A request path that no route matches is answered by
  \<open>not_found_handler\<close>, registered for the status 404, with its \<open>ErrorResponse\<close>.
\<close>

record error_response =
  error :: string
  details :: "string option"





section \<open>data_transformer.py\<close>

subsection \<open>Dicts\<close>

text \<open>
  A dict is an association list in insertion order with distinct keys. \<open>d[k] = v\<close>
  replaces the value in place when \<open>k\<close> is present and appends otherwise;
  \<open>d.update(other)\<close> assigns the items of \<open>other\<close> in order.
\<close>

definition dict_ok :: "('k \<times> 'v) list \<Rightarrow> bool" where
  "dict_ok d = distinct (map fst d)"

fun dict_set :: "'k \<Rightarrow> 'v \<Rightarrow> ('k \<times> 'v) list \<Rightarrow> ('k \<times> 'v) list" where
  "dict_set k v [] = [(k, v)]"
| "dict_set k v ((k', v') # d) = (if k' = k then (k, v) # d else (k', v') # dict_set k v d)"

definition dict_update :: "('k \<times> 'v) list \<Rightarrow> ('k \<times> 'v) list \<Rightarrow> ('k \<times> 'v) list" where
  "dict_update d other = foldl (\<lambda>acc (k, v). dict_set k v acc) d other"

text \<open>\<open>groups[k].append(v)\<close> on a \<open>defaultdict(list)\<close>.\<close>

fun dict_append :: "'k \<Rightarrow> 'v \<Rightarrow> ('k \<times> 'v list) list \<Rightarrow> ('k \<times> 'v list) list" where
  "dict_append k v [] = [(k, [v])]"
| "dict_append k v ((k', vs) # d) = (if k' = k then (k', vs @ [v]) # d else (k', vs) # dict_append k v d)"

subsection \<open>The API response that is transformed\<close>

text \<open>
  The input is the JSON form of a ScanResult. A field that TagInfo declares as \<open>str\<close>
  is a string or absent (\<open>None\<close>); a field it declares \<open>Optional[str]\<close> is absent, null
  or a string (\<open>json_str\<close>).
\<close>

record api_tag_info =
  in_tag_name :: "string option"
  in_commit_id :: "string option"
  in_author :: json_str
  in_date :: json_str
  in_message :: json_str
  in_repository_name :: "string option"
  in_repository_url :: "string option"
  in_tag_url :: "string option"
  in_repository_path :: json_str

record api_response =
  in_scan_duration_seconds :: "int option"
  in_total_repositories_scanned :: "int option"
  in_tags_found :: "api_tag_info list option"

text \<open>\<open>obj.get(key, default)\<close> on the two kinds of field; the result \<open>None\<close> is Python's \<open>None\<close>.\<close>

definition get_str :: "string option \<Rightarrow> string \<Rightarrow> string" where
  "get_str field dflt = (case field of None \<Rightarrow> dflt | Some s \<Rightarrow> s)"

definition get_json :: "json_str \<Rightarrow> string option \<Rightarrow> string option" where
  "get_json field dflt = (case field of Absent \<Rightarrow> dflt | Null \<Rightarrow> None | Str s \<Rightarrow> Some s)"

subsection \<open>The stored dataset\<close>

record transformed_repo =
  tr_repository_name :: string
  tr_commit_id :: string
  tr_commit_short :: string
  tr_author :: "string option"
  tr_author_email :: "string option"
  tr_date :: "string option"
  tr_message :: "string option"
  tr_repository_url :: string
  tr_tag_url :: string
  deployment_status :: string
  environment :: string
  tr_repository_path :: "string option"

text \<open>
  \<open>deployment_environments\<close> is built by \<open>list(set(...))\<close>, whose order is the hash
  order of the run: the field is modelled as the set.
\<close>

record tag_summary =
  total_repositories :: int
  latest_commit_date :: string
  deployment_environments :: "string set"

record tag_group =
  group_tag_name :: string
  repositories :: "transformed_repo list"
  summary :: tag_summary

record metadata =
  last_updated :: string
  md_scan_duration_seconds :: int
  organization :: string
  md_total_repositories_scanned :: int
  scan_type :: string
  version :: string

record statistics =
  total_unique_tags :: int
  total_repositories_with_tags :: int
  most_common_tag :: string
  latest_tag_date :: string

record dataset =
  metadata :: metadata
  tags :: "(string \<times> tag_group) list"
  statistics :: statistics

subsection \<open>Statistics\<close>

text \<open>
  \<open>max(xs)\<close> and \<open>max(xs, key=f)\<close> on a sequence whose first element is given: the
  running maximum is replaced only by a strictly greater element.
\<close>

fun py_max :: "'a::linorder \<Rightarrow> 'a list \<Rightarrow> 'a" where
  "py_max best [] = best"
| "py_max best (x # xs) = py_max (if x > best then x else best) xs"

fun py_max_key :: "('a \<Rightarrow> int) \<Rightarrow> 'a \<Rightarrow> 'a list \<Rightarrow> 'a" where
  "py_max_key f best [] = best"
| "py_max_key f best (x # xs) = py_max_key f (if f x > f best then x else best) xs"

text \<open>\<open>max(dates) if dates else ""\<close>.\<close>

definition max_or_empty :: "string list \<Rightarrow> string" where
  "max_or_empty dates = (case dates of [] \<Rightarrow> '''' | d # ds \<Rightarrow> py_max d ds)"

text \<open>
  \<open>tag_counts.get\<close> as the key function; it is only applied to keys of \<open>tag_counts\<close>, so
  the last case is never reached.
\<close>

definition tag_counts_get :: "(string \<times> int) list \<Rightarrow> string \<Rightarrow> int" where
  "tag_counts_get tag_counts t = (case map_of tag_counts t of Some n \<Rightarrow> n | None \<Rightarrow> 0)"

text \<open>
  The statistics block, which \<open>transform_api_response\<close> and \<open>merge_scan_results\<close> both
  contain line for line.
\<close>

definition calc_statistics :: "(string \<times> tag_group) list \<Rightarrow> statistics" where
  "calc_statistics tags_dict =
     (let all_repos = concat (map (\<lambda>(t, tag_data). repositories tag_data) tags_dict);
          unique_repos = remdups (map tr_repository_name all_repos);
          tag_counts = map (\<lambda>(t, tag_data). (t, total_repositories (summary tag_data))) tags_dict;
          all_dates = map (\<lambda>(t, tag_data). latest_commit_date (summary tag_data))
                        (filter (\<lambda>(t, tag_data). latest_commit_date (summary tag_data) \<noteq> '''') tags_dict)
      in \<lparr> total_unique_tags = int (length tags_dict),
           total_repositories_with_tags = int (length unique_repos),
           most_common_tag =
             (case map fst tag_counts of
                [] \<Rightarrow> ''''
              | k # ks \<Rightarrow> py_max_key (tag_counts_get tag_counts) k ks),
           latest_tag_date = max_or_empty all_dates \<rparr>)"

subsection \<open>transform_api_response\<close>

text \<open>\<open>_extract_email_from_author\<close>; \<open>str.find\<close> is the index of the first occurrence.\<close>

definition str_find :: "string \<Rightarrow> char \<Rightarrow> nat" where
  "str_find s c = length (takeWhile (\<lambda>x. x \<noteq> c) s)"

definition extract_email_from_author :: "string \<Rightarrow> string option" where
  "extract_email_from_author a =
     (if CHR ''<'' \<in> set a \<and> CHR ''>'' \<in> set a then
        (let start = str_find a CHR ''<'' + 1;
             stop = str_find a CHR ''>''
         in if start < stop then Some (take (stop - start) (drop start a)) else None)
      else None)"

text \<open>
  One \<open>transformed_repo\<close>. When the author is null, \<open>"<" in author\<close> raises TypeError.
\<close>

definition transform_repo :: "api_tag_info \<Rightarrow> py_exception + transformed_repo" where
  "transform_repo repo =
     (let cid = get_str (in_commit_id repo) '''' in
      case get_json (in_author repo) (Some '''') of
        None \<Rightarrow> Inl TypeError
      | Some a \<Rightarrow>
          Inr \<lparr> tr_repository_name = get_str (in_repository_name repo) '''',
                tr_commit_id = cid,
                tr_commit_short = (if cid \<noteq> '''' then take 7 cid else ''''),
                tr_author = Some a,
                tr_author_email = extract_email_from_author a,
                tr_date = get_json (in_date repo) (Some ''''),
                tr_message = get_json (in_message repo) (Some ''''),
                tr_repository_url = get_str (in_repository_url repo) '''',
                tr_tag_url = get_str (in_tag_url repo) '''',
                deployment_status = ''unknown'',
                environment = ''unknown'',
                tr_repository_path = get_json (in_repository_path repo) None \<rparr>)"

fun transform_repos :: "api_tag_info list \<Rightarrow> py_exception + transformed_repo list" where
  "transform_repos [] = Inr []"
| "transform_repos (repo # rest) =
     (case transform_repo repo of
        Inl e \<Rightarrow> Inl e
      | Inr t \<Rightarrow> (case transform_repos rest of Inl e \<Rightarrow> Inl e | Inr ts \<Rightarrow> Inr (t # ts)))"

text \<open>The dict stored under one tag name: the records and their summary.\<close>

definition make_tag_group :: "string \<Rightarrow> transformed_repo list \<Rightarrow> tag_group" where
  "make_tag_group t transformed_repos =
     (let dates = concat (map (\<lambda>repo. case tr_date repo of
                                        Some d \<Rightarrow> (if d \<noteq> '''' then [d] else [])
                                      | None \<Rightarrow> []) transformed_repos);
          latest_date = max_or_empty dates;
          environments = set (filter (\<lambda>e. e \<noteq> ''unknown'') (map environment transformed_repos))
      in \<lparr> group_tag_name = t,
           repositories = transformed_repos,
           summary = \<lparr> total_repositories = int (length transformed_repos),
                       latest_commit_date = latest_date,
                       deployment_environments = environments \<rparr> \<rparr>)"

text \<open>\<open>tag_groups\<close>: the matches grouped by tag name, in first-seen order.\<close>

definition group_by_tag :: "api_tag_info list \<Rightarrow> (string \<times> api_tag_info list) list" where
  "group_by_tag found =
     foldl (\<lambda>tag_groups tag_info. dict_append (get_str (in_tag_name tag_info) ''unknown'') tag_info tag_groups)
       [] found"

fun transform_groups :: "(string \<times> api_tag_info list) list \<Rightarrow> (string \<times> tag_group) list \<Rightarrow> py_exception + (string \<times> tag_group) list" where
  "transform_groups [] tags_dict = Inr tags_dict"
| "transform_groups ((t, repos) # rest) tags_dict =
     (case transform_repos repos of
        Inl e \<Rightarrow> Inl e
      | Inr transformed_repos \<Rightarrow>
          transform_groups rest (dict_set t (make_tag_group t transformed_repos) tags_dict))"

text \<open>
  \<open>transform_api_response\<close>; \<open>schema_version\<close> is the transformer's attribute and \<open>now\<close>
  the text of \<open>datetime.now().isoformat()\<close>.
\<close>

definition transform_api_response :: "string \<Rightarrow> string \<Rightarrow> api_response \<Rightarrow> string option \<Rightarrow> string \<Rightarrow> py_exception + dataset" where
  "transform_api_response schema_version now response org stype =
     (let md = \<lparr> last_updated = now @ ''Z'',
                 md_scan_duration_seconds = (case in_scan_duration_seconds response of None \<Rightarrow> 0 | Some n \<Rightarrow> n),
                 organization = (case org of None \<Rightarrow> ''unknown'' | Some n \<Rightarrow> if n = '''' then ''unknown'' else n),
                 md_total_repositories_scanned = (case in_total_repositories_scanned response of None \<Rightarrow> 0 | Some n \<Rightarrow> n),
                 scan_type = stype,
                 version = schema_version \<rparr>;
          found = (case in_tags_found response of None \<Rightarrow> [] | Some l \<Rightarrow> l)
      in case transform_groups (group_by_tag found) [] of
           Inl e \<Rightarrow> Inl e
         | Inr tags_dict \<Rightarrow>
             Inr \<lparr> metadata = md, tags = tags_dict, statistics = calc_statistics tags_dict \<rparr>)"

subsection \<open>enhance_with_deployment_info\<close>

text \<open>The deployment configuration; \<open>None\<close> is an absent key.\<close>

record version_info =
  vi_status :: "string option"
  vi_environment :: "string option"

record repo_config =
  deployed_versions :: "(string \<times> version_info) list option"

type_synonym deployment_config = "(string \<times> repo_config) list"

text \<open>The body of the first loop for one record of the group stored under \<open>t\<close>.\<close>

definition enhance_repo :: "deployment_config \<Rightarrow> string \<Rightarrow> transformed_repo \<Rightarrow> transformed_repo" where
  "enhance_repo config t repo =
     (case map_of config (tr_repository_name repo) of
        None \<Rightarrow> repo
      | Some rc \<Rightarrow>
          (case map_of (case deployed_versions rc of None \<Rightarrow> [] | Some dv \<Rightarrow> dv) t of
             Some vi \<Rightarrow>
               repo\<lparr> deployment_status := (case vi_status vi of None \<Rightarrow> ''unknown'' | Some s \<Rightarrow> s),
                     environment := (case vi_environment vi of None \<Rightarrow> ''unknown'' | Some e \<Rightarrow> e) \<rparr>
           | None \<Rightarrow> repo\<lparr> deployment_status := ''not_deployed'', environment := ''none'' \<rparr>))"

text \<open>The first loop, over the items of \<open>data["tags"]\<close>.\<close>

definition enhance_records :: "deployment_config \<Rightarrow> (string \<times> tag_group) list \<Rightarrow> (string \<times> tag_group) list" where
  "enhance_records config tags_dict =
     map (\<lambda>(t, tag_data). (t, tag_data\<lparr> repositories := map (enhance_repo config t) (repositories tag_data) \<rparr>))
       tags_dict"

text \<open>The second loop, which recomputes each summary's environments.\<close>

definition recalc_environments :: "(string \<times> tag_group) list \<Rightarrow> (string \<times> tag_group) list" where
  "recalc_environments tags_dict =
     map (\<lambda>(t, tag_data).
            (t, tag_data\<lparr> summary := (summary tag_data)
                  \<lparr> deployment_environments :=
                      set (filter (\<lambda>e. e \<notin> set [''unknown'', ''none''])
                             (map environment (repositories tag_data))) \<rparr> \<rparr>))
       tags_dict"

text \<open>The dataset that \<open>enhance_with_deployment_info\<close> returns.\<close>

definition enhance_with_deployment_info :: "dataset \<Rightarrow> deployment_config \<Rightarrow> dataset" where
  "enhance_with_deployment_info data config =
     data\<lparr> tags := recalc_environments (enhance_records config (tags data)) \<rparr>"

subsection \<open>merge_scan_results, on a store of objects\<close>

text \<open>
  \<open>merge_scan_results\<close> copies the outer dict only and then writes through the copy, so
  what it does to its arguments depends on which dict objects are shared. The store maps
  an address to an object: a dataset dict holds the addresses of its three values, the
  other objects hold their content (tag groups are not written by the merge and are kept
  by value). An address is an index of the store; a new object is appended.
\<close>

type_synonym addr = nat

datatype py_object =
    DatasetObj addr addr addr
  | MetadataObj metadata
  | TagsObj "(string \<times> tag_group) list"
  | StatisticsObj statistics

type_synonym heap = "py_object list"

definition heap_get :: "heap \<Rightarrow> addr \<Rightarrow> py_object option" where
  "heap_get h a = (if a < length h then Some (h ! a) else None)"

definition heap_put :: "heap \<Rightarrow> addr \<Rightarrow> py_object \<Rightarrow> heap" where
  "heap_put h a obj = h[a := obj]"

definition heap_alloc :: "heap \<Rightarrow> py_object \<Rightarrow> heap \<times> addr" where
  "heap_alloc h obj = (h @ [obj], length h)"

text \<open>The dataset value that the dict at an address denotes.\<close>

definition read_dataset :: "heap \<Rightarrow> addr \<Rightarrow> dataset option" where
  "read_dataset h a =
     (case heap_get h a of
        Some (DatasetObj m t s) \<Rightarrow>
          (case (heap_get h m, heap_get h t, heap_get h s) of
             (Some (MetadataObj md), Some (TagsObj tg), Some (StatisticsObj st)) \<Rightarrow>
               Some \<lparr> metadata = md, tags = tg, statistics = st \<rparr>
           | _ \<Rightarrow> None)
      | _ \<Rightarrow> None)"

text \<open>
  The steps of \<open>merge_scan_results\<close> in order: \<open>existing_data.copy()\<close> makes a new outer
  dict with the same three addresses; the metadata key of the copy is set;
  \<open>merged_data["tags"].update(new_data["tags"])\<close> writes the tags dict the copy
  shares with \<open>existing_data\<close>; the statistics are computed from that dict and stored in a
  new object under the copy's key. \<open>None\<close> is a KeyError or TypeError on a store that
  does not hold two datasets.
\<close>

definition merge_scan_results_heap :: "heap \<Rightarrow> addr \<Rightarrow> addr \<Rightarrow> (heap \<times> addr) option" where
  "merge_scan_results_heap h existing_data new_data =
     (case (heap_get h existing_data, heap_get h new_data) of
        (Some (DatasetObj e_meta e_tags e_stats), Some (DatasetObj n_meta n_tags n_stats)) \<Rightarrow>
          (let (h1, merged_data) = heap_alloc h (DatasetObj e_meta e_tags e_stats);
               h2 = heap_put h1 merged_data (DatasetObj n_meta e_tags e_stats)
           in case (heap_get h2 e_tags, heap_get h2 n_tags) of
                (Some (TagsObj merged_tags), Some (TagsObj new_tags)) \<Rightarrow>
                  (let h3 = heap_put h2 e_tags (TagsObj (dict_update merged_tags new_tags))
                   in case heap_get h3 e_tags of
                        Some (TagsObj tags_dict) \<Rightarrow>
                          (let (h4, st) = heap_alloc h3 (StatisticsObj (calc_statistics tags_dict));
                               h5 = heap_put h4 merged_data (DatasetObj n_meta e_tags st)
                           in Some (h5, merged_data))
                      | _ \<Rightarrow> None)
              | _ \<Rightarrow> None)
      | _ \<Rightarrow> None)"

text \<open>The value of the returned dataset as a function of the values of the arguments.\<close>

definition merge_scan_results :: "dataset \<Rightarrow> dataset \<Rightarrow> dataset" where
  "merge_scan_results existing_data new_data =
     (let merged_tags = dict_update (tags existing_data) (tags new_data)
      in \<lparr> metadata = metadata new_data,
           tags = merged_tags,
           statistics = calc_statistics merged_tags \<rparr>)"

section \<open>The properties of the specification\<close>


text \<open>Within every group the repository names are pairwise distinct.\<close>

definition unique_repository_names :: "(string \<times> tag_group) list \<Rightarrow> bool" where
  "unique_repository_names tgs =
     list_all (\<lambda>(t, g). distinct (map tr_repository_name (repositories g))) tgs"

text \<open>
  A dataset with the deployment annotations blanked: the two deployment fields of every
  record and the environments of every summary. Two datasets with the same image differ
  in those fields only.
\<close>

definition clear_deployment_repo :: "transformed_repo \<Rightarrow> transformed_repo" where
  "clear_deployment_repo repo = repo\<lparr> deployment_status := '''', environment := '''' \<rparr>"

definition clear_deployment_group :: "tag_group \<Rightarrow> tag_group" where
  "clear_deployment_group g =
     g\<lparr> repositories := map clear_deployment_repo (repositories g),
        summary := (summary g)\<lparr> deployment_environments := {} \<rparr> \<rparr>"

definition clear_deployment :: "dataset \<Rightarrow> dataset" where
  "clear_deployment data =
     data\<lparr> tags := map (\<lambda>(t, g). (t, clear_deployment_group g)) (tags data) \<rparr>"

text \<open>\<open>api_response.get("tags_found", [])\<close>, and the two keys by which a match is filed.\<close>

definition response_matches :: "api_response \<Rightarrow> api_tag_info list" where
  "response_matches response = (case in_tags_found response of None \<Rightarrow> [] | Some l \<Rightarrow> l)"

definition match_tag :: "api_tag_info \<Rightarrow> string" where
  "match_tag m = get_str (in_tag_name m) ''unknown''"

definition match_repository :: "api_tag_info \<Rightarrow> string" where
  "match_repository m = get_str (in_repository_name m) ''''"

text \<open>
  The replies of the two commit lookups that have the shape \<open>get_tag_commit_info\<close>
  reads without an exception: a dict whose \<open>object\<close> is absent or a dict; a dict whose
  \<open>commit\<close> is absent or a dict, in which \<open>author\<close> is absent or a dict and
  \<open>message\<close> is not null.
\<close>

definition tag_ref_shape_ok :: "tag_ref_json \<Rightarrow> bool" where
  "tag_ref_shape_ok reply =
     (case reply of
        RefNotDict \<Rightarrow> False
      | RefDict obj \<Rightarrow> obj \<noteq> ObjNotDict)"

definition commit_shape_ok :: "commit_json \<Rightarrow> bool" where
  "commit_shape_ok reply =
     (case reply of
        CommitNotDict \<Rightarrow> False
      | CommitDict c \<Rightarrow>
          (case c of
             ObjAbsent \<Rightarrow> True
           | ObjNotDict \<Rightarrow> False
           | ObjDict body \<Rightarrow> body_author body \<noteq> ObjNotDict \<and> body_message body \<noteq> Null))"

section \<open>Concrete inputs\<close>

text \<open>
  An organization \<open>acme\<close> with three repositories. The tag listing of \<open>svc-x\<close> fails with
  a 404. The commit of the tag \<open>0.75.5\<close> of \<open>svc-a\<close> is found; every other commit lookup
  times out. \<open>str(e)\<close> of an \<open>HTTPException\<close> is the status and the detail, and every
  one that \<open>app.py\<close> raises has the status 500; the only \<open>AttributeError\<close> of these
  inputs is that of \<open>.get\<close> on a list. \<open>CHR 0x27\<close> is the single quote.
\<close>

definition demo_repos :: "repo_entry list" where
  "demo_repos =
     [ \<lparr> entry_name = Some ''svc-a'', entry_url = Some ''https://gh/acme/svc-a'' \<rparr>,
       \<lparr> entry_name = Some ''svc-x'', entry_url = Some ''https://gh/acme/svc-x'' \<rparr>,
       \<lparr> entry_name = Some ''svc-b'', entry_url = Some ''https://gh/acme/svc-b'' \<rparr> ]"

definition demo_env :: gh_env where
  "demo_env =
     \<lparr> gh_auth_status = True,
       gh_repo_list = (\<lambda>cmd.
         if cmd = [''repo'', ''list'', ''acme'', ''--limit'', ''1000'', ''--json'', ''name,url'']
         then GhReturns (JsonList demo_repos)
         else GhRaises ''GitHub CLI error: no such organization''),
       gh_api_tags = (\<lambda>cmd.
         if cmd = [''api'', ''repos/acme/svc-a/tags'', ''--paginate'']
         then GhReturns (JsonList [Some ''0.75.5'', Some ''v0.75.5'', Some ''0.750''])
         else if cmd = [''api'', ''repos/acme/svc-b/tags'', ''--paginate'']
         then GhReturns (JsonList [Some ''v0.75.5'', Some ''1.0.0'', Some ''v''])
         else GhRaises ''GitHub CLI error: HTTP 404''),
       gh_api_tag_ref = (\<lambda>cmd.
         if cmd = [''api'', ''repos/acme/svc-a/git/refs/tags/0.75.5'']
         then GhReturns (RefDict (ObjDict (Str ''abc1234'')))
         else GhRaises ''GitHub CLI command timed out''),
       gh_api_commit = (\<lambda>cmd.
         if cmd = [''api'', ''repos/acme/svc-a/commits/abc1234'']
         then GhReturns (CommitDict (ObjDict
                \<lparr> body_author = ObjDict \<lparr> author_name = Str ''Ada'',
                                           author_date = Str ''2024-04-01T12:00:00Z'' \<rparr>,
                  body_message = Str (''Release 0.75.5'' @ [CHR 0x0A] @ ''All services'') \<rparr>))
         else GhRaises ''GitHub CLI command timed out''),
       exception_str = (\<lambda>e. case e of
                          HTTPException c d \<Rightarrow> ''500: '' @ d
                        | AttributeError \<Rightarrow>
                            [CHR 0x27] @ ''list'' @ [CHR 0x27] @ '' object has no attribute '' @
                            [CHR 0x27] @ ''get'' @ [CHR 0x27]
                        | TypeError \<Rightarrow>
                            ''argument of type '' @ [CHR 0x27] @ ''NoneType'' @ [CHR 0x27] @
                            '' is not iterable''),
       clock_start = ''2024-05-01T10:00:00'',
       clock_duration = 1500000 \<rparr>"

text \<open>The same organization when the tag listing of \<open>svc-x\<close> times out instead.\<close>

definition timeout_env :: gh_env where
  "timeout_env =
     demo_env \<lparr> gh_api_tags := (\<lambda>cmd.
       if cmd = [''api'', ''repos/acme/svc-x/tags'', ''--paginate'']
       then GhRaises ''GitHub CLI command timed out''
       else gh_api_tags demo_env cmd) \<rparr>"

text \<open>
  The same organization when the reference lookup of the tag \<open>v0.75.5\<close> of \<open>svc-b\<close> is
  answered with a list.
\<close>

definition list_ref_env :: gh_env where
  "list_ref_env =
     demo_env \<lparr> gh_api_tag_ref := (\<lambda>cmd.
       if cmd = [''api'', ''repos/acme/svc-b/git/refs/tags/v0.75.5'']
       then GhReturns RefNotDict
       else gh_api_tag_ref demo_env cmd) \<rparr>"

text \<open>
  The matches that a scan of \<open>demo_env\<close> records: without commit metadata, and the one
  of the tag \<open>0.75.5\<close> of \<open>svc-a\<close> with it.
\<close>

definition demo_release_match :: tag_info where
  "demo_release_match =
     \<lparr> tag_name = ''0.75.5'', commit_id = ''abc1234'', author = Some ''Ada'',
       date = Some ''2024-04-01T12:00:00Z'', message = Some ''Release 0.75.5'',
       repository_name = ''svc-a'',
       repository_url = ''https://gh/acme/svc-a'',
       tag_url = ''https://gh/acme/svc-a/releases/tag/0.75.5'',
       repository_path = None \<rparr>"

definition demo_match :: "string \<Rightarrow> string \<Rightarrow> tag_info" where
  "demo_match repo tag =
     \<lparr> tag_name = tag, commit_id = '''', author = None, date = None, message = None,
       repository_name = repo,
       repository_url = ''https://gh/acme/'' @ repo,
       tag_url = ''https://gh/acme/'' @ repo @ ''/releases/tag/'' @ tag,
       repository_path = None \<rparr>"

text \<open>
  Matches as the API reports them, and the record that \<open>transform_repo\<close> makes of one.
\<close>

definition demo_api_tag :: "string \<Rightarrow> string \<Rightarrow> string \<Rightarrow> api_tag_info" where
  "demo_api_tag t repo d =
     \<lparr> in_tag_name = Some t,
       in_commit_id = Some ''0123456789abcdef'',
       in_author = Str ''Ada <ada@acme.io>'',
       in_date = Str d,
       in_message = Str ''release'',
       in_repository_name = Some repo,
       in_repository_url = Some ''https://gh/acme'',
       in_tag_url = Some ''https://gh/acme/releases'',
       in_repository_path = Null \<rparr>"

definition demo_record :: "string \<Rightarrow> string \<Rightarrow> transformed_repo" where
  "demo_record repo d =
     \<lparr> tr_repository_name = repo,
       tr_commit_id = ''0123456789abcdef'',
       tr_commit_short = ''0123456'',
       tr_author = Some ''Ada <ada@acme.io>'',
       tr_author_email = Some ''ada@acme.io'',
       tr_date = Some d,
       tr_message = Some ''release'',
       tr_repository_url = ''https://gh/acme'',
       tr_tag_url = ''https://gh/acme/releases'',
       deployment_status = ''unknown'',
       environment = ''unknown'',
       tr_repository_path = None \<rparr>"

text \<open>A response with two tags, and one where the same repository name occurs twice
  under one tag (two local checkouts with the same directory name).\<close>

definition demo_response :: api_response where
  "demo_response =
     \<lparr> in_scan_duration_seconds = Some 2,
       in_total_repositories_scanned = Some 3,
       in_tags_found = Some [ demo_api_tag ''2.0.0'' ''svc-a'' ''2024-01-01T00:00:00Z'',
                              demo_api_tag ''1.0.0'' ''svc-a'' ''2023-06-01T00:00:00Z'',
                              demo_api_tag ''2.0.0'' ''svc-b'' ''2024-03-01T00:00:00Z'' ] \<rparr>"

definition dup_response :: api_response where
  "dup_response =
     \<lparr> in_scan_duration_seconds = Some 2,
       in_total_repositories_scanned = Some 2,
       in_tags_found = Some [ demo_api_tag ''2.0.0'' ''svc'' ''2024-01-01T00:00:00Z'',
                              demo_api_tag ''2.0.0'' ''svc'' ''2024-03-01T00:00:00Z'' ] \<rparr>"

text \<open>Two stored datasets and a store that holds them at the addresses 0 and 4.\<close>

definition demo_metadata :: "string \<Rightarrow> metadata" where
  "demo_metadata now =
     \<lparr> last_updated = now, md_scan_duration_seconds = 2, organization = ''acme'',
       md_total_repositories_scanned = 3, scan_type = ''specific_tag'', version = ''1.0.0'' \<rparr>"

definition existing_tags :: "(string \<times> tag_group) list" where
  "existing_tags =
     [ (''1.0.0'', make_tag_group ''1.0.0'' [demo_record ''svc-a'' ''2023-06-01T00:00:00Z'']),
       (''2.0.0'', make_tag_group ''2.0.0'' [demo_record ''svc-a'' ''2024-01-01T00:00:00Z'',
                                           demo_record ''svc-b'' ''2024-03-01T00:00:00Z'']) ]"

definition incoming_tags :: "(string \<times> tag_group) list" where
  "incoming_tags =
     [ (''2.0.0'', make_tag_group ''2.0.0'' [demo_record ''svc-c'' ''2024-04-01T00:00:00Z'']),
       (''3.0.0'', make_tag_group ''3.0.0'' [demo_record ''svc-a'' ''2024-05-01T00:00:00Z'']) ]"

definition demo_existing :: dataset where
  "demo_existing =
     \<lparr> metadata = demo_metadata ''2024-03-02T00:00:00Z'', tags = existing_tags,
       statistics = calc_statistics existing_tags \<rparr>"

definition demo_incoming :: dataset where
  "demo_incoming =
     \<lparr> metadata = demo_metadata ''2024-05-02T00:00:00Z'', tags = incoming_tags,
       statistics = calc_statistics incoming_tags \<rparr>"

definition demo_heap :: heap where
  "demo_heap =
     [ DatasetObj 1 2 3, MetadataObj (metadata demo_existing), TagsObj existing_tags,
       StatisticsObj (statistics demo_existing),
       DatasetObj 5 6 7, MetadataObj (metadata demo_incoming), TagsObj incoming_tags,
       StatisticsObj (statistics demo_incoming) ]"


text \<open>A deployment configuration that knows \<open>svc-a\<close> only.\<close>

definition demo_config :: deployment_config where
  "demo_config =
     [ (''svc-a'', \<lparr> deployed_versions =
          Some [ (''2.0.0'', \<lparr> vi_status = Some ''deployed'', vi_environment = Some ''prod'' \<rparr>) ] \<rparr>) ]"

section \<open>The rules of the pattern scan\<close>

lemma special_not_alnum: "c \<in> set re_special_chars \<Longrightarrow> \<not> is_ascii_alnum c"
  by (auto simp: re_special_chars_def is_ascii_alnum_def)

lemma special_cases:
  "c = CHR 0x5C \<or> c = CHR ''^'' \<or> c = CHR ''$'' \<or> c = CHR ''.'' \<or> c \<in> set ''*+?{}[]()|''
     \<Longrightarrow> c \<in> set re_special_chars"
  by (auto simp: re_special_chars_def)

lemma re_parse_lit_special:
  assumes "c \<in> set re_special_chars"
  shows "re_parse (CHR 0x5C # c # rest) = map_option ((#) (Lit c)) (re_parse rest)"
  using special_not_alnum[OF assms] by simp

lemma re_parse_lit_plain:
  assumes "c \<notin> set re_special_chars"
  shows "re_parse (c # rest) = map_option ((#) (Lit c)) (re_parse rest)"
proof -
  have "c \<noteq> CHR 0x5C" "c \<noteq> CHR ''^''" "c \<noteq> CHR ''$''" "c \<noteq> CHR ''.''" "c \<notin> set ''*+?{}[]()|''"
    using assms special_cases by blast+
  then show ?thesis by (simp del: set_simps)
qed

lemma re_parse_escape:
  "re_parse (re_escape s @ rest) = map_option ((@) (map Lit s)) (re_parse rest)"
proof (induction s)
  case Nil
  show ?case by (simp add: re_escape_def option.map_ident)
next
  case (Cons c s)
  have step: "re_escape (c # s) = (if c \<in> set re_special_chars then [CHR 0x5C, c] else [c]) @ re_escape s"
    by (simp add: re_escape_def)
  show ?case
  proof (cases "c \<in> set re_special_chars")
    case True
    then show ?thesis
      using Cons.IH re_parse_lit_special[OF True, of "re_escape s @ rest"]
      by (simp add: step option.map_comp comp_def del: re_parse.simps)
  next
    case False
    then show ?thesis
      using Cons.IH re_parse_lit_plain[OF False, of "re_escape s @ rest"]
      by (simp add: step option.map_comp comp_def del: re_parse.simps)
  qed
qed

lemma re_match_items_lits:
  "re_match_items (map Lit s @ items) b t =
     (prefix s t \<and> re_match_items items (b \<and> s = []) (drop (length s) t))"
proof (induction s arbitrary: b t)
  case Nil
  show ?case by simp
next
  case (Cons c s)
  show ?case by (cases t) (auto simp: Cons.IH)
qed


lemma re_parse_caret_escape:
  "re_parse (''^'' @ re_escape p @ rest) = map_option (\<lambda>r. Bol # map Lit p @ r) (re_parse rest)"
  using re_parse_escape[of p rest] by (simp add: option.map_comp comp_def)

lemma re_parse_caret_v_escape:
  "re_parse (''^v'' @ re_escape p @ rest) = map_option (\<lambda>r. Bol # map Lit (''v'' @ p) @ r) (re_parse rest)"
proof -
  have v: "CHR ''v'' \<notin> set re_special_chars" by (simp add: re_special_chars_def)
  show ?thesis
    using re_parse_escape[of p rest] re_parse_lit_plain[OF v, of "re_escape p @ rest"]
    by (simp add: option.map_comp comp_def del: re_parse.simps)
       (simp add: option.map_comp comp_def)
qed

lemma re_parse_dot_tail: "re_parse [CHR 0x5C, CHR ''.''] = Some [Lit CHR ''.'']"
  by (simp add: is_ascii_alnum_def)

lemma re_parse_dollar_tail: "re_parse ''$'' = Some [Eol]"
  by simp

lemma regex_patterns_parse:
  "map re_parse (regex_patterns p) =
     [ Some (Bol # map Lit (p @ ''.'')),
       Some (Bol # map Lit (''v'' @ p @ ''.'')),
       Some (Bol # map Lit p @ [Eol]),
       Some (Bol # map Lit (''v'' @ p) @ [Eol]) ]"
  unfolding regex_patterns_def Let_def list.map
  by (simp only: re_parse_caret_escape re_parse_caret_v_escape re_parse_dot_tail re_parse_dollar_tail)
     simp

lemma match_prefix_rule:
  "re_match_items (Bol # map Lit s) True t = prefix s t"
  using re_match_items_lits[of s "[]" True t] by simp

lemma match_exact_rule:
  "re_match_items (Bol # map Lit s @ [Eol]) True t = (t = s \<or> t = s @ [CHR 0x0A])"
proof -
  have "re_match_items (Bol # map Lit s @ [Eol]) True t =
          (prefix s t \<and> (drop (length s) t = [] \<or> drop (length s) t = [CHR 0x0A]))"
    using re_match_items_lits[of s "[Eol]" True t] by simp
  also have "\<dots> = (t = s \<or> t = s @ [CHR 0x0A])"
    by (auto simp: prefix_def)
  finally show ?thesis .
qed

lemma tag_matches_regex_patterns:
  "tag_matches (regex_patterns p) t \<longleftrightarrow>
     prefix (p @ ''.'') t \<or> prefix (''v'' @ p @ ''.'') t \<or>
     t = p \<or> t = p @ [CHR 0x0A] \<or> t = ''v'' @ p \<or> t = ''v'' @ p @ [CHR 0x0A]"
proof -
  have "tag_matches (regex_patterns p) t =
          list_ex (\<lambda>r. map_option (\<lambda>items. re_match_items items True t) r = Some True)
            (map re_parse (regex_patterns p))"
    by (simp add: tag_matches_def re_match_def list_ex_iff)
  also have "\<dots> = (re_match_items (Bol # map Lit (p @ ''.'')) True t \<or>
                    re_match_items (Bol # map Lit (''v'' @ p @ ''.'')) True t \<or>
                    re_match_items (Bol # map Lit p @ [Eol]) True t \<or>
                    re_match_items (Bol # map Lit (''v'' @ p) @ [Eol]) True t)"
    by (simp only: regex_patterns_parse) simp
  also have "\<dots> = (prefix (p @ ''.'') t \<or> prefix (''v'' @ p @ ''.'') t \<or>
                    (t = p \<or> t = p @ [CHR 0x0A]) \<or> (t = ''v'' @ p \<or> t = (''v'' @ p) @ [CHR 0x0A]))"
    by (simp only: match_prefix_rule match_exact_rule)
  finally show ?thesis by simp
qed

section \<open>The scans of app.py\<close>

lemma found_tag_info_names:
  "found_tag_info env org n u p = Inr m \<Longrightarrow> repository_name m = n \<and> tag_name m = p"
  by (auto simp: found_tag_info_def split: sum.splits)

lemma check_patterns_find:
  "check_patterns env org n u ts pats =
     (case find (\<lambda>p. p \<in> set ts) pats of
        None \<Rightarrow> Inr []
      | Some p \<Rightarrow> (case found_tag_info env org n u p of
                     Inl e \<Rightarrow> Inl e
                   | Inr m \<Rightarrow> Inr [m]))"
  by (induction pats) auto

lemma check_patterns_pairs:
  "check_patterns env org n u ts pats = Inr new \<Longrightarrow>
   map (\<lambda>m. (repository_name m, tag_name m)) new =
     (case find (\<lambda>p. p \<in> set ts) pats of None \<Rightarrow> [] | Some p \<Rightarrow> [(n, p)])"
  by (auto simp: check_patterns_find dest: found_tag_info_names split: option.splits sum.splits)

lemma check_patterns_length:
  "check_patterns env org n u ts pats = Inr new \<Longrightarrow> length new \<le> 1"
  by (auto simp: check_patterns_find split: option.splits sum.splits)

lemma check_patterns_names:
  "check_patterns env org n u ts pats = Inr new \<Longrightarrow> set (map repository_name new) \<subseteq> {n}"
  by (auto simp: check_patterns_find dest: found_tag_info_names split: option.splits sum.splits)

lemma check_patterns_filter_length:
  "check_patterns env org n u ts pats = Inr new \<Longrightarrow>
   length (filter (\<lambda>m. repository_name m = x) new) \<le> (if n = x then 1 else 0)"
  by (auto simp: check_patterns_find dest: found_tag_info_names split: option.splits sum.splits)

lemma scan_tag_repos_step:
  assumes "scan_tag_repos env org pats (repo # rest) found = Inr r"
      and "repo_name_of repo \<noteq> ''''"
  obtains ts new where
    "get_repository_tags env org (repo_name_of repo) = Inr ts"
    "check_patterns env org (repo_name_of repo) (repo_url_of repo) ts pats = Inr new"
    "scan_tag_repos env org pats rest (found @ new) = Inr r"
  using assms by (auto split: sum.splits)

lemma scan_tag_repos_count:
  "scan_tag_repos env org pats repos found = Inr r \<Longrightarrow>
   length (filter (\<lambda>m. repository_name m = x) r)
     \<le> length (filter (\<lambda>m. repository_name m = x) found)
       + length (filter (\<lambda>repo. repo_name_of repo = x) repos)"
proof (induction repos arbitrary: found)
  case Nil
  then show ?case by simp
next
  case (Cons repo rest)
  show ?case
  proof (cases "repo_name_of repo = ''''")
    case True
    with Cons.prems have "scan_tag_repos env org pats rest found = Inr r" by simp
    from Cons.IH[OF this] show ?thesis by simp
  next
    case False
    from scan_tag_repos_step[OF Cons.prems False] obtain ts new where
      new: "check_patterns env org (repo_name_of repo) (repo_url_of repo) ts pats = Inr new" and
      rest: "scan_tag_repos env org pats rest (found @ new) = Inr r"
      by blast
    from Cons.IH[OF rest] check_patterns_filter_length[OF new, of x]
    show ?thesis by (simp split: if_splits)
  qed
qed

lemma scan_tag_repos_distinct:
  "scan_tag_repos env org pats repos found = Inr r \<Longrightarrow>
   distinct (filter (\<lambda>n. n \<noteq> '''') (map repo_name_of repos)) \<Longrightarrow>
   distinct (map repository_name found) \<Longrightarrow>
   set (map repository_name found) \<inter> set (map repo_name_of repos) = {} \<Longrightarrow>
   distinct (map repository_name r)"
proof (induction repos arbitrary: found)
  case Nil
  then show ?case by simp
next
  case (Cons repo rest)
  show ?case
  proof (cases "repo_name_of repo = ''''")
    case True
    with Cons.prems have "scan_tag_repos env org pats rest found = Inr r" by simp
    moreover from True Cons.prems have "distinct (filter (\<lambda>n. n \<noteq> '''') (map repo_name_of rest))"
      by simp
    moreover from Cons.prems have "set (map repository_name found) \<inter> set (map repo_name_of rest) = {}"
      by auto
    ultimately show ?thesis using Cons.IH Cons.prems(3) by blast
  next
    case False
    from scan_tag_repos_step[OF Cons.prems(1) False] obtain ts new where
      new: "check_patterns env org (repo_name_of repo) (repo_url_of repo) ts pats = Inr new" and
      rest: "scan_tag_repos env org pats rest (found @ new) = Inr r"
      by blast
    have names: "set (map repository_name new) \<subseteq> {repo_name_of repo}"
      using new by (rule check_patterns_names)
    have len: "length (map repository_name new) \<le> 1"
      using check_patterns_length[OF new] by simp
    have d_new: "distinct (map repository_name new)"
      using len by (cases "map repository_name new") auto
    have notin: "repo_name_of repo \<notin> set (map repository_name found)"
      using Cons.prems(4) by auto
    have disj: "set (map repository_name found) \<inter> set (map repository_name new) = {}"
      using names notin by blast
    have d1: "distinct (map repository_name (found @ new))"
      using Cons.prems(3) d_new disj by (simp only: map_append distinct_append)
    have d_rest: "distinct (filter (\<lambda>n. n \<noteq> '''') (map repo_name_of rest))"
      and fresh: "repo_name_of repo \<notin> set (map repo_name_of rest)"
      using Cons.prems(2) False by auto
    have "set (map repository_name found) \<inter> set (map repo_name_of rest) = {}"
      using Cons.prems(4) by auto
    moreover have "set (map repository_name new) \<inter> set (map repo_name_of rest) = {}"
      using names fresh by blast
    ultimately have d2: "set (map repository_name (found @ new)) \<inter> set (map repo_name_of rest) = {}"
      by (simp only: map_append set_append Int_Un_distrib2) simp
    from Cons.IH[OF rest d_rest d1 d2] show ?thesis .
  qed
qed

lemma scan_tag_repos_pairs:
  "scan_tag_repos env org pats repos found = Inr r \<Longrightarrow>
   map (\<lambda>m. (repository_name m, tag_name m)) r =
     map (\<lambda>m. (repository_name m, tag_name m)) found @
     concat (map (\<lambda>repo.
                case get_repository_tags env org (repo_name_of repo) of
                  Inl e \<Rightarrow> []
                | Inr ts \<Rightarrow> (case find (\<lambda>p. p \<in> set ts) pats of
                              None \<Rightarrow> []
                            | Some p \<Rightarrow> [(repo_name_of repo, p)]))
             (filter (\<lambda>repo. repo_name_of repo \<noteq> '''') repos))"
proof (induction repos arbitrary: found)
  case Nil
  then show ?case by simp
next
  case (Cons repo rest)
  show ?case
  proof (cases "repo_name_of repo = ''''")
    case True
    with Cons.prems have "scan_tag_repos env org pats rest found = Inr r" by simp
    from Cons.IH[OF this] True show ?thesis by simp
  next
    case False
    from scan_tag_repos_step[OF Cons.prems False] obtain ts new where
      ts: "get_repository_tags env org (repo_name_of repo) = Inr ts" and
      new: "check_patterns env org (repo_name_of repo) (repo_url_of repo) ts pats = Inr new" and
      rest: "scan_tag_repos env org pats rest (found @ new) = Inr r"
      by blast
    from Cons.IH[OF rest] check_patterns_pairs[OF new] False ts
    show ?thesis by simp
  qed
qed

lemma scan_tag_repos_listed:
  "scan_tag_repos env org pats repos found = Inr r \<Longrightarrow>
   repo \<in> set repos \<Longrightarrow> repo_name_of repo \<noteq> '''' \<Longrightarrow>
   \<exists>ts. get_repository_tags env org (repo_name_of repo) = Inr ts"
proof (induction repos arbitrary: found)
  case Nil
  then show ?case by simp
next
  case (Cons a rest)
  show ?case
  proof (cases "repo_name_of a = ''''")
    case True
    with Cons.prems have "scan_tag_repos env org pats rest found = Inr r" "repo \<in> set rest"
      by auto
    from Cons.IH[OF this Cons.prems(3)] show ?thesis .
  next
    case False
    from scan_tag_repos_step[OF Cons.prems(1) False] obtain ts new where
      ts: "get_repository_tags env org (repo_name_of a) = Inr ts" and
      rest: "scan_tag_repos env org pats rest (found @ new) = Inr r"
      by blast
    show ?thesis
    proof (cases "repo = a")
      case True
      with ts show ?thesis by blast
    next
      case False
      with Cons.prems(2) have "repo \<in> set rest" by simp
      from Cons.IH[OF rest this Cons.prems(3)] show ?thesis .
    qed
  qed
qed

lemma scan_organization_for_tag_Inr:
  assumes "get_repositories env org = Inr repos"
      and "scan_organization_for_tag env org tv inc = Inr r"
  shows "scan_tag_repos env org (tag_patterns tv inc) repos [] = Inr (tags_found r)"
    and "repositories_with_tag r = length (tags_found r)"
    and "total_repositories_scanned r = length repos"
  using assms
  by (auto simp: scan_organization_for_tag_def scan_tag_try_def split: if_splits sum.splits)

lemma demo_env_auth: "check_github_cli demo_env"
  by (simp add: check_github_cli_def demo_env_def)

lemma demo_get_repositories: "get_repositories demo_env ''acme'' = Inr demo_repos"
  by (simp add: get_repositories_def demo_env_def)

lemma demo_tags_a:
  "get_repository_tags demo_env ''acme'' ''svc-a'' = Inr [''0.75.5'', ''v0.75.5'', ''0.750'']"
  by (simp add: get_repository_tags_def tags_command_def demo_env_def)

lemma demo_tags_x: "get_repository_tags demo_env ''acme'' ''svc-x'' = Inr []"
  by (simp add: get_repository_tags_def tags_command_def demo_env_def)

lemma demo_tags_b:
  "get_repository_tags demo_env ''acme'' ''svc-b'' = Inr [''v0.75.5'', ''1.0.0'', ''v'']"
  by (simp add: get_repository_tags_def tags_command_def demo_env_def)

lemma demo_commit_info_release:
  "get_tag_commit_info demo_env ''acme'' ''svc-a'' ''0.75.5'' =
     Inr (Some \<lparr> info_commit_sha = ''abc1234'', info_author = Some ''Ada'',
                 info_date = Some ''2024-04-01T12:00:00Z'', info_message = ''Release 0.75.5'' \<rparr>)"
  by (simp add: get_tag_commit_info_def demo_env_def tag_ref_sha_def json_get_def
        commit_fields_def first_line_def)

lemma demo_found_release:
  "found_tag_info demo_env ''acme'' ''svc-a'' ''https://gh/acme/svc-a'' ''0.75.5''
     = Inr demo_release_match"
  by (simp add: found_tag_info_def demo_commit_info_release demo_release_match_def)

lemma demo_found_degraded:
  "found_tag_info demo_env ''acme'' ''svc-a'' ''https://gh/acme/svc-a'' ''v0.75.5''
     = Inr (demo_match ''svc-a'' ''v0.75.5'')"
  "found_tag_info demo_env ''acme'' ''svc-b'' ''https://gh/acme/svc-b'' ''v0.75.5''
     = Inr (demo_match ''svc-b'' ''v0.75.5'')"
  "found_tag_info demo_env ''acme'' ''svc-b'' ''https://gh/acme/svc-b'' ''v''
     = Inr (demo_match ''svc-b'' ''v'')"
  by (simp_all add: found_tag_info_def get_tag_commit_info_def demo_env_def demo_match_def)

lemma demo_scan_tag:
  "scan_organization_for_tag demo_env ''acme'' ''0.75.5'' True =
     Inr \<lparr> total_repositories_scanned = 3,
           repositories_with_tag = 2,
           tags_found = [demo_release_match, demo_match ''svc-b'' ''v0.75.5''],
           scan_timestamp = ''2024-05-01T10:00:00'',
           scan_duration_seconds = 1500000 \<rparr>"
proof -
  have pats: "tag_patterns ''0.75.5'' True = [''0.75.5'', ''v0.75.5'']"
    by (simp add: tag_patterns_def startswith_def)
  have "scan_tag_repos demo_env ''acme'' [''0.75.5'', ''v0.75.5''] demo_repos [] =
          Inr [demo_release_match, demo_match ''svc-b'' ''v0.75.5'']"
    by (simp add: demo_repos_def repo_name_of_def repo_url_of_def
          demo_tags_a demo_tags_x demo_tags_b demo_found_release demo_found_degraded)
  moreover have "length demo_repos = 3" "clock_start demo_env = ''2024-05-01T10:00:00''"
    "clock_duration demo_env = 1500000"
    by (simp_all add: demo_repos_def demo_env_def)
  ultimately show ?thesis
    by (simp add: scan_organization_for_tag_def scan_tag_try_def demo_env_auth pats
          demo_get_repositories)
qed

lemma demo_scan_patterns:
  "scan_organization_for_patterns demo_env ''acme'' ''0.75'' 50 =
     Inr \<lparr> total_repositories_scanned = 3,
           repositories_with_tag = 2,
           tags_found = [demo_release_match, demo_match ''svc-a'' ''v0.75.5'',
                         demo_match ''svc-b'' ''v0.75.5''],
           scan_timestamp = ''2024-05-01T10:00:00'',
           scan_duration_seconds = 1500000 \<rparr>"
proof -
  have "scan_pattern_repos demo_env ''acme'' (regex_patterns ''0.75'') 50 demo_repos [] =
          Inr [demo_release_match, demo_match ''svc-a'' ''v0.75.5'',
               demo_match ''svc-b'' ''v0.75.5'']"
    by (simp add: demo_repos_def repo_name_of_def repo_url_of_def
          demo_tags_a demo_tags_x demo_tags_b demo_found_release demo_found_degraded
          tag_matches_regex_patterns)
  moreover have "length demo_repos = 3" "clock_start demo_env = ''2024-05-01T10:00:00''"
    "clock_duration demo_env = 1500000"
    by (simp_all add: demo_repos_def demo_env_def)
  moreover have "remdups (map repository_name
       [demo_release_match, demo_match ''svc-a'' ''v0.75.5'',
        demo_match ''svc-b'' ''v0.75.5'']) = [''svc-a'', ''svc-b'']"
    by (simp add: demo_match_def demo_release_match_def)
  ultimately show ?thesis
    by (simp add: scan_organization_for_patterns_def scan_patterns_try_def demo_env_auth
          demo_get_repositories)
qed

lemma demo_scan_empty_pattern:
  "scan_organization_for_patterns demo_env ''acme'' '''' 50 =
     Inr \<lparr> total_repositories_scanned = 3,
           repositories_with_tag = 1,
           tags_found = [demo_match ''svc-b'' ''v''],
           scan_timestamp = ''2024-05-01T10:00:00'',
           scan_duration_seconds = 1500000 \<rparr>"
proof -
  have "scan_pattern_repos demo_env ''acme'' (regex_patterns '''') 50 demo_repos [] =
          Inr [demo_match ''svc-b'' ''v'']"
    by (simp add: demo_repos_def repo_name_of_def repo_url_of_def
          demo_tags_a demo_tags_x demo_tags_b demo_found_degraded tag_matches_regex_patterns)
  moreover have "length demo_repos = 3" "clock_start demo_env = ''2024-05-01T10:00:00''"
    "clock_duration demo_env = 1500000"
    by (simp_all add: demo_repos_def demo_env_def)
  ultimately show ?thesis
    by (simp add: scan_organization_for_patterns_def scan_patterns_try_def demo_env_auth
          demo_get_repositories demo_match_def)
qed

text \<open>
  C6. In an exact-tag scan with the v-prefix enabled and a version that does not start
  with \<open>v\<close>, the candidates are the version and then \<open>v\<close> followed by the version. The
  matches of a returned scan are, in the order of the repository list, one per
  repository that has a name and a candidate in its tag list, and none for the others:
  the match of the version when that is among the repository's tags, otherwise the match
  of the \<open>v\<close> form. Every repository with a name had its tags listed; a repository name
  has at most as many matches as the repository list has entries of that name; and when
  the version is among the tags, what the repository contributes is what the candidate
  list of the version alone contributes, so the \<open>v\<close> form is not examined.
\<close>

theorem exact_scan_first_candidate_wins:
  assumes "\<not> startswith tag_version ''v''"
      and "get_repositories env org = Inr repos"
      and "scan_organization_for_tag env org tag_version True = Inr r"
  shows "tag_patterns tag_version True = [tag_version, ''v'' @ tag_version] \<and>
         map (\<lambda>m. (repository_name m, tag_name m)) (tags_found r) =
           concat (map (\<lambda>repo.
                     case get_repository_tags env org (repo_name_of repo) of
                       Inl e \<Rightarrow> []
                     | Inr ts \<Rightarrow>
                         if tag_version \<in> set ts then [(repo_name_of repo, tag_version)]
                         else if ''v'' @ tag_version \<in> set ts
                         then [(repo_name_of repo, ''v'' @ tag_version)]
                         else [])
                   (filter (\<lambda>repo. repo_name_of repo \<noteq> '''') repos)) \<and>
         (\<forall>repo \<in> set repos. repo_name_of repo \<noteq> '''' \<longrightarrow>
            (\<exists>ts. get_repository_tags env org (repo_name_of repo) = Inr ts)) \<and>
         (\<forall>x. length (filter (\<lambda>m. repository_name m = x) (tags_found r))
                \<le> length (filter (\<lambda>repo. repo_name_of repo = x) repos)) \<and>
         (\<forall>n u ts. tag_version \<in> set ts \<longrightarrow>
            check_patterns env org n u ts (tag_patterns tag_version True)
              = check_patterns env org n u ts [tag_version])"
proof -
  have pats: "tag_patterns tag_version True = [tag_version, ''v'' @ tag_version]"
    using assms(1) by (simp add: tag_patterns_def)
  have scan: "scan_tag_repos env org [tag_version, ''v'' @ tag_version] repos [] = Inr (tags_found r)"
    using scan_organization_for_tag_Inr(1)[OF assms(2,3)] by (simp add: pats)
  have first: "\<And>ts n.
      (case find (\<lambda>p. p \<in> set ts) [tag_version, ''v'' @ tag_version] of
         None \<Rightarrow> []
       | Some p \<Rightarrow> [(n, p)]) =
      (if tag_version \<in> set ts then [(n, tag_version)]
       else if ''v'' @ tag_version \<in> set ts then [(n, ''v'' @ tag_version)]
       else [])"
    by simp
  have pairs: "map (\<lambda>m. (repository_name m, tag_name m)) (tags_found r) =
           concat (map (\<lambda>repo.
                     case get_repository_tags env org (repo_name_of repo) of
                       Inl e \<Rightarrow> []
                     | Inr ts \<Rightarrow>
                         if tag_version \<in> set ts then [(repo_name_of repo, tag_version)]
                         else if ''v'' @ tag_version \<in> set ts
                         then [(repo_name_of repo, ''v'' @ tag_version)]
                         else [])
                   (filter (\<lambda>repo. repo_name_of repo \<noteq> '''') repos))"
    using scan_tag_repos_pairs[OF scan] by (simp only: first map_append list.map append_Nil)
  have listed: "\<forall>repo \<in> set repos. repo_name_of repo \<noteq> '''' \<longrightarrow>
            (\<exists>ts. get_repository_tags env org (repo_name_of repo) = Inr ts)"
    using scan_tag_repos_listed[OF scan] by blast
  have count: "\<forall>x. length (filter (\<lambda>m. repository_name m = x) (tags_found r))
                \<le> length (filter (\<lambda>repo. repo_name_of repo = x) repos)"
    using scan_tag_repos_count[OF scan] by fastforce
  have stop: "\<forall>n u ts. tag_version \<in> set ts \<longrightarrow>
            check_patterns env org n u ts (tag_patterns tag_version True)
              = check_patterns env org n u ts [tag_version]"
    by (simp add: pats)
  show ?thesis
    using pats pairs listed count stop by (intro conjI)
qed

theorem exact_scan_first_candidate_wins_witness:
  "\<not> startswith ''0.75.5'' ''v'' \<and>
   get_repositories demo_env ''acme'' = Inr demo_repos \<and>
   get_repository_tags demo_env ''acme'' ''svc-a'' = Inr [''0.75.5'', ''v0.75.5'', ''0.750''] \<and>
   get_repository_tags demo_env ''acme'' ''svc-x'' = Inr [] \<and>
   get_repository_tags demo_env ''acme'' ''svc-b'' = Inr [''v0.75.5'', ''1.0.0'', ''v''] \<and>
   (\<exists>r. scan_organization_for_tag demo_env ''acme'' ''0.75.5'' True = Inr r \<and>
        tag_patterns ''0.75.5'' True = [''0.75.5'', ''v0.75.5''] \<and>
        map (\<lambda>m. (repository_name m, tag_name m)) (tags_found r)
          = [(''svc-a'', ''0.75.5''), (''svc-b'', ''v0.75.5'')])"
proof -
  have h: "\<not> startswith ''0.75.5'' ''v''" by (simp add: startswith_def)
  note inst = exact_scan_first_candidate_wins[OF h demo_get_repositories demo_scan_tag]
  have pats: "tag_patterns ''0.75.5'' True = [''0.75.5'', ''v0.75.5'']"
    using inst by simp
  have "map (\<lambda>m. (repository_name m, tag_name m))
          (tags_found \<lparr> total_repositories_scanned = 3, repositories_with_tag = 2,
                        tags_found = [demo_release_match, demo_match ''svc-b'' ''v0.75.5''],
                        scan_timestamp = ''2024-05-01T10:00:00'',
                        scan_duration_seconds = 1500000 \<rparr>)
          = [(''svc-a'', ''0.75.5''), (''svc-b'', ''v0.75.5'')]"
    using inst
    by (simp add: demo_repos_def repo_name_of_def demo_tags_a demo_tags_x demo_tags_b)
  then show ?thesis
    using h pats demo_get_repositories demo_tags_a demo_tags_x demo_tags_b demo_scan_tag
    by simp
qed

text \<open>
  C4. The repositories-with-match count of a returned ScanResult is the number of
  distinct repository names among its matches: for the pattern scan always, and for the
  exact-tag scan when the names of the scanned repositories are unique.
\<close>

theorem repositories_with_tag_counts_distinct_names:
  assumes "get_repositories env org = Inr repos"
      and "distinct (filter (\<lambda>n. n \<noteq> '''') (map repo_name_of repos))"
  shows "(\<forall>r. scan_organization_for_tag env org tag_version include_patterns = Inr r \<longrightarrow>
            repositories_with_tag r = card (set (map repository_name (tags_found r)))) \<and>
         (\<forall>r. scan_organization_for_patterns env org version_pattern max_results = Inr r \<longrightarrow>
            repositories_with_tag r = card (set (map repository_name (tags_found r))))"
proof (intro conjI allI impI)
  fix r
  assume ok: "scan_organization_for_tag env org tag_version include_patterns = Inr r"
  then obtain found where
    found: "scan_tag_repos env org (tag_patterns tag_version include_patterns) repos [] = Inr found"
    and r: "repositories_with_tag r = length found" "tags_found r = found"
    using assms(1)
    by (auto simp: scan_organization_for_tag_def scan_tag_try_def split: if_splits sum.splits)
  have "distinct (map repository_name found)"
    using scan_tag_repos_distinct[OF found assms(2)] by simp
  then have "card (set (map repository_name found)) = length found"
    using distinct_card[of "map repository_name found"] by simp
  with r show "repositories_with_tag r = card (set (map repository_name (tags_found r)))"
    by simp
next
  fix r
  assume "scan_organization_for_patterns env org version_pattern max_results = Inr r"
  then obtain found where
    "repositories_with_tag r = length (remdups (map repository_name found))" "tags_found r = found"
    by (auto simp: scan_organization_for_patterns_def scan_patterns_try_def
             split: if_splits sum.splits)
  then show "repositories_with_tag r = card (set (map repository_name (tags_found r)))"
    by (simp add: length_remdups_card_conv)
qed

theorem repositories_with_tag_counts_distinct_names_witness:
  "get_repositories demo_env ''acme'' = Inr demo_repos \<and>
   distinct (filter (\<lambda>n. n \<noteq> '''') (map repo_name_of demo_repos)) \<and>
   (\<exists>r. scan_organization_for_tag demo_env ''acme'' ''0.75.5'' True = Inr r \<and>
        length (tags_found r) = 2 \<and>
        repositories_with_tag r = 2 \<and>
        repositories_with_tag r = card (set (map repository_name (tags_found r)))) \<and>
   (\<exists>r. scan_organization_for_patterns demo_env ''acme'' ''0.75'' 50 = Inr r \<and>
        length (tags_found r) = 3 \<and>
        repositories_with_tag r = 2 \<and>
        repositories_with_tag r = card (set (map repository_name (tags_found r))))"
proof -
  have h1: "get_repositories demo_env ''acme'' = Inr demo_repos"
    by (rule demo_get_repositories)
  have h2: "distinct (filter (\<lambda>n. n \<noteq> '''') (map repo_name_of demo_repos))"
    by (simp add: demo_repos_def repo_name_of_def)
  from repositories_with_tag_counts_distinct_names[OF h1 h2, of "''0.75.5''" True "''0.75''" 50]
  show ?thesis
    using h1 h2 by (simp add: demo_scan_tag demo_scan_patterns)
qed

lemma get_repository_tags_tolerant:
  assumes "\<And>d. gh_api_tags env (tags_command org n) = GhRaises d \<Longrightarrow> str_contains ''404'' d"
  shows "\<exists>ts. get_repository_tags env org n = Inr ts"
proof (cases "gh_api_tags env (tags_command org n)")
  case (GhRaises d)
  with assms show ?thesis by (simp add: get_repository_tags_def)
next
  case (GhReturns j)
  then show ?thesis by (cases j) (simp_all add: get_repository_tags_def)
qed

lemma get_repository_tags_404:
  assumes "gh_api_tags env (tags_command org n) = GhRaises d" and "str_contains ''404'' d"
  shows "get_repository_tags env org n = Inr []"
  using assms by (simp add: get_repository_tags_def)

lemma check_patterns_no_tags: "check_patterns env org n u [] pats = Inr []"
  by (induction pats) simp_all

lemma tag_ref_sha_shape:
  "tag_ref_shape_ok reply \<Longrightarrow> \<exists>sha. tag_ref_sha reply = Inr sha"
  "\<not> tag_ref_shape_ok reply \<Longrightarrow> tag_ref_sha reply = Inl AttributeError"
  by (auto simp: tag_ref_shape_ok_def tag_ref_sha_def split: tag_ref_json.splits json_obj.splits)

lemma commit_fields_shape:
  "commit_shape_ok reply \<Longrightarrow> \<exists>ci. commit_fields sha reply = Inr ci"
  "\<not> commit_shape_ok reply \<Longrightarrow> commit_fields sha reply = Inl AttributeError"
  by (auto simp: commit_shape_ok_def commit_fields_def
           split: commit_json.splits json_obj.splits json_str.splits)

lemma get_tag_commit_info_unexpected_reference:
  assumes "gh_api_tag_ref env [''api'', ''repos/'' @ org @ ''/'' @ n @ ''/git/refs/tags/'' @ t]
             = GhReturns reply"
      and "\<not> tag_ref_shape_ok reply"
  shows "get_tag_commit_info env org n t = Inl AttributeError"
  using assms tag_ref_sha_shape(2)[OF assms(2)] by (simp add: get_tag_commit_info_def)

lemma get_tag_commit_info_unexpected_commit:
  assumes "gh_api_tag_ref env [''api'', ''repos/'' @ org @ ''/'' @ n @ ''/git/refs/tags/'' @ t]
             = GhReturns tag_ref"
      and "tag_ref_sha tag_ref = Inr (Some sha)" and "sha \<noteq> ''''"
      and "gh_api_commit env [''api'', ''repos/'' @ org @ ''/'' @ n @ ''/commits/'' @ sha]
             = GhReturns reply"
      and "\<not> commit_shape_ok reply"
  shows "get_tag_commit_info env org n t = Inl AttributeError"
  using assms commit_fields_shape(2)[OF assms(5)] by (simp add: get_tag_commit_info_def)

lemma get_tag_commit_info_ok:
  assumes "\<And>reply. gh_api_tag_ref env [''api'', ''repos/'' @ org @ ''/'' @ n @ ''/git/refs/tags/'' @ t]
               = GhReturns reply \<Longrightarrow> tag_ref_shape_ok reply"
      and "\<And>sha reply. gh_api_commit env [''api'', ''repos/'' @ org @ ''/'' @ n @ ''/commits/'' @ sha]
               = GhReturns reply \<Longrightarrow> commit_shape_ok reply"
  shows "\<exists>ci. get_tag_commit_info env org n t = Inr ci"
proof (cases "gh_api_tag_ref env [''api'', ''repos/'' @ org @ ''/'' @ n @ ''/git/refs/tags/'' @ t]")
  case (GhRaises d)
  then show ?thesis by (simp add: get_tag_commit_info_def)
next
  case (GhReturns tag_ref)
  from tag_ref_sha_shape(1)[OF assms(1)[OF GhReturns]] obtain commit_sha where
    sha: "tag_ref_sha tag_ref = Inr commit_sha" by blast
  show ?thesis
  proof (cases commit_sha)
    case None
    with GhReturns sha show ?thesis by (simp add: get_tag_commit_info_def)
  next
    case (Some s)
    show ?thesis
    proof (cases "gh_api_commit env [''api'', ''repos/'' @ org @ ''/'' @ n @ ''/commits/'' @ s]")
      case (GhRaises d)
      with GhReturns sha Some show ?thesis by (simp add: get_tag_commit_info_def)
    next
      case inner: (GhReturns reply)
      from commit_fields_shape(1)[OF assms(2)[OF inner]] obtain ci where
        "commit_fields s reply = Inr ci" by blast
      with GhReturns sha Some inner show ?thesis by (simp add: get_tag_commit_info_def)
    qed
  qed
qed

lemma found_tag_info_ok:
  assumes "\<And>reply. gh_api_tag_ref env [''api'', ''repos/'' @ org @ ''/'' @ n @ ''/git/refs/tags/'' @ t]
               = GhReturns reply \<Longrightarrow> tag_ref_shape_ok reply"
      and "\<And>sha reply. gh_api_commit env [''api'', ''repos/'' @ org @ ''/'' @ n @ ''/commits/'' @ sha]
               = GhReturns reply \<Longrightarrow> commit_shape_ok reply"
  shows "\<exists>m. found_tag_info env org n u t = Inr m"
proof -
  have "\<exists>ci. get_tag_commit_info env org n t = Inr ci"
    by (rule get_tag_commit_info_ok) (erule assms(1), erule assms(2))
  then obtain ci where "get_tag_commit_info env org n t = Inr ci" by blast
  then show ?thesis by (simp add: found_tag_info_def)
qed

lemma check_patterns_ok:
  assumes "\<And>t. \<exists>m. found_tag_info env org n u t = Inr m"
  shows "\<exists>new. check_patterns env org n u ts pats = Inr new"
proof (cases "find (\<lambda>p. p \<in> set ts) pats")
  case None
  then show ?thesis by (simp add: check_patterns_find)
next
  case (Some p)
  from assms[of p] obtain m where "found_tag_info env org n u p = Inr m" by blast
  with Some show ?thesis by (simp add: check_patterns_find)
qed

lemma scan_pattern_tags_ok:
  assumes "\<And>t. \<exists>m. found_tag_info env org n u t = Inr m"
  shows "\<exists>r. scan_pattern_tags env org n u pats mr ts found = Inr r"
proof (induction ts arbitrary: found)
  case Nil
  show ?case by simp
next
  case (Cons t rest)
  from assms[of t] obtain m where m: "found_tag_info env org n u t = Inr m" by blast
  show ?case using Cons.IH by (simp add: m)
qed

lemma scan_tag_repos_ok:
  assumes "\<And>repo. repo \<in> set repos \<Longrightarrow> \<exists>ts. get_repository_tags env org (repo_name_of repo) = Inr ts"
      and "\<And>n u t. \<exists>m. found_tag_info env org n u t = Inr m"
  shows "\<exists>r. scan_tag_repos env org pats repos found = Inr r"
  using assms(1)
proof (induction repos arbitrary: found)
  case Nil
  show ?case by simp
next
  case (Cons repo rest)
  from Cons.prems[of repo] obtain ts where
    ts: "get_repository_tags env org (repo_name_of repo) = Inr ts" by auto
  from check_patterns_ok[of env org "repo_name_of repo" "repo_url_of repo" ts pats] assms(2)
  obtain new where
    new: "check_patterns env org (repo_name_of repo) (repo_url_of repo) ts pats = Inr new"
    by blast
  have rest: "\<And>f. \<exists>r. scan_tag_repos env org pats rest f = Inr r"
    using Cons.IH Cons.prems by simp
  show ?case
    using rest by (simp add: ts new)
qed

lemma scan_pattern_repos_ok:
  assumes "\<And>repo. repo \<in> set repos \<Longrightarrow> \<exists>ts. get_repository_tags env org (repo_name_of repo) = Inr ts"
      and "\<And>n u t. \<exists>m. found_tag_info env org n u t = Inr m"
  shows "\<exists>r. scan_pattern_repos env org pats mr repos found = Inr r"
  using assms(1)
proof (induction repos arbitrary: found)
  case Nil
  show ?case by simp
next
  case (Cons repo rest)
  from Cons.prems[of repo] obtain ts where
    ts: "get_repository_tags env org (repo_name_of repo) = Inr ts" by auto
  from scan_pattern_tags_ok[of env org "repo_name_of repo" "repo_url_of repo" pats mr "take 10 ts" found]
       assms(2)
  obtain f where
    f: "scan_pattern_tags env org (repo_name_of repo) (repo_url_of repo) pats mr (take 10 ts) found
          = Inr f"
    by blast
  have rest: "\<And>f. \<exists>r. scan_pattern_repos env org pats mr rest f = Inr r"
    using Cons.IH Cons.prems by simp
  show ?case
    using rest by (simp add: ts f)
qed

lemma scan_organization_for_tag_ok:
  assumes "check_github_cli env"
      and "get_repositories env org = Inr repos"
      and "\<And>repo d. repo \<in> set repos \<Longrightarrow>
             gh_api_tags env (tags_command org (repo_name_of repo)) = GhRaises d \<Longrightarrow>
             str_contains ''404'' d"
      and "\<And>n u t. \<exists>m. found_tag_info env org n u t = Inr m"
  shows "\<exists>r. scan_organization_for_tag env org tv inc = Inr r \<and>
             total_repositories_scanned r = length repos"
proof -
  have "\<And>repo. repo \<in> set repos \<Longrightarrow> \<exists>ts. get_repository_tags env org (repo_name_of repo) = Inr ts"
    using assms(3) get_repository_tags_tolerant by blast
  from scan_tag_repos_ok[of repos env org "tag_patterns tv inc" "[]", OF this assms(4)]
  obtain found where "scan_tag_repos env org (tag_patterns tv inc) repos [] = Inr found"
    by blast
  then show ?thesis
    using assms(1,2) by (simp add: scan_organization_for_tag_def scan_tag_try_def)
qed

lemma scan_organization_for_patterns_ok:
  assumes "check_github_cli env"
      and "get_repositories env org = Inr repos"
      and "\<And>repo d. repo \<in> set repos \<Longrightarrow>
             gh_api_tags env (tags_command org (repo_name_of repo)) = GhRaises d \<Longrightarrow>
             str_contains ''404'' d"
      and "\<And>n u t. \<exists>m. found_tag_info env org n u t = Inr m"
  shows "\<exists>r. scan_organization_for_patterns env org vp mr = Inr r \<and>
             total_repositories_scanned r = length repos"
proof -
  have "\<And>repo. repo \<in> set repos \<Longrightarrow> \<exists>ts. get_repository_tags env org (repo_name_of repo) = Inr ts"
    using assms(3) get_repository_tags_tolerant by blast
  from scan_pattern_repos_ok[of repos env org "regex_patterns vp" mr "[]", OF this assms(4)]
  obtain found where "scan_pattern_repos env org (regex_patterns vp) mr repos [] = Inr found"
    by blast
  then show ?thesis
    using assms(1,2) by (simp add: scan_organization_for_patterns_def scan_patterns_try_def)
qed

lemma skip_repo_on_404:
  assumes "gh_api_tags env (tags_command org (repo_name_of repo)) = GhRaises d"
      and "str_contains ''404'' d"
  shows "scan_tag_repos env org pats (repo # rest) found = scan_tag_repos env org pats rest found"
    and "scan_pattern_repos env org pats mr (repo # rest) found
           = scan_pattern_repos env org pats mr rest found"
  using get_repository_tags_404[OF assms] by (simp_all add: check_patterns_no_tags)

lemma found_tag_info_degraded:
  assumes "get_tag_commit_info env org n t = Inr None"
  shows "found_tag_info env org n u t =
           Inr \<lparr> tag_name = t, commit_id = '''', author = None, date = None, message = None,
                 repository_name = n, repository_url = u,
                 tag_url = u @ ''/releases/tag/'' @ t, repository_path = None \<rparr>"
  using assms by (simp add: found_tag_info_def)

lemma commit_info_lookup_failures:
  "gh_api_tag_ref env [''api'', ''repos/'' @ org @ ''/'' @ n @ ''/git/refs/tags/'' @ t] = GhRaises d
     \<Longrightarrow> get_tag_commit_info env org n t = Inr None"
  "gh_api_tag_ref env [''api'', ''repos/'' @ org @ ''/'' @ n @ ''/git/refs/tags/'' @ t] = GhReturns tag_ref
     \<Longrightarrow> tag_ref_sha tag_ref = Inr (Some sha)
     \<Longrightarrow> gh_api_commit env [''api'', ''repos/'' @ org @ ''/'' @ n @ ''/commits/'' @ sha] = GhRaises d
     \<Longrightarrow> get_tag_commit_info env org n t = Inr None"
  by (simp_all add: get_tag_commit_info_def)

text \<open>
  C2, as the code has it. A tag listing that fails with \<open>404\<close> in the error detail counts
  as an empty tag list and the scan goes on with the next repository; a commit lookup
  that fails with an \<open>HTTPException\<close> (the command fails, times out or prints no JSON)
  gives a match with an empty commit id and no author, date or message. Both scans
  return a result when every failing tag listing of the scanned repositories is of that
  kind and every reply to a commit lookup has the shape that \<open>get_tag_commit_info\<close>
  reads: \<open>get_tag_commit_info\<close> catches \<open>HTTPException\<close> only, and the
  \<open>AttributeError\<close> of a reply of another shape leaves it (lemmas
  \<open>get_tag_commit_info_unexpected_reference\<close> and
  \<open>get_tag_commit_info_unexpected_commit\<close>).
\<close>

theorem scan_tolerates_404_and_failed_commit_lookups:
  assumes "check_github_cli env"
      and "get_repositories env org = Inr repos"
      and "\<And>repo d. repo \<in> set repos \<Longrightarrow>
             gh_api_tags env (tags_command org (repo_name_of repo)) = GhRaises d \<Longrightarrow>
             str_contains ''404'' d"
      and "\<And>n t reply.
             gh_api_tag_ref env [''api'', ''repos/'' @ org @ ''/'' @ n @ ''/git/refs/tags/'' @ t]
               = GhReturns reply \<Longrightarrow> tag_ref_shape_ok reply"
      and "\<And>n sha reply.
             gh_api_commit env [''api'', ''repos/'' @ org @ ''/'' @ n @ ''/commits/'' @ sha]
               = GhReturns reply \<Longrightarrow> commit_shape_ok reply"
  shows "(\<exists>r. scan_organization_for_tag env org tag_version include_patterns = Inr r \<and>
              total_repositories_scanned r = length repos) \<and>
         (\<exists>r. scan_organization_for_patterns env org version_pattern max_results = Inr r \<and>
              total_repositories_scanned r = length repos) \<and>
         (\<forall>repo d rest found pats.
            gh_api_tags env (tags_command org (repo_name_of repo)) = GhRaises d \<and>
            str_contains ''404'' d \<longrightarrow>
              scan_tag_repos env org pats (repo # rest) found
                = scan_tag_repos env org pats rest found \<and>
              scan_pattern_repos env org pats max_results (repo # rest) found
                = scan_pattern_repos env org pats max_results rest found) \<and>
         (\<forall>n t d. gh_api_tag_ref env [''api'', ''repos/'' @ org @ ''/'' @ n @ ''/git/refs/tags/'' @ t]
                     = GhRaises d \<longrightarrow> get_tag_commit_info env org n t = Inr None) \<and>
         (\<forall>n t tag_ref sha d.
            gh_api_tag_ref env [''api'', ''repos/'' @ org @ ''/'' @ n @ ''/git/refs/tags/'' @ t]
              = GhReturns tag_ref \<and>
            tag_ref_sha tag_ref = Inr (Some sha) \<and>
            gh_api_commit env [''api'', ''repos/'' @ org @ ''/'' @ n @ ''/commits/'' @ sha]
              = GhRaises d \<longrightarrow> get_tag_commit_info env org n t = Inr None) \<and>
         (\<forall>n u t. get_tag_commit_info env org n t = Inr None \<longrightarrow>
            found_tag_info env org n u t =
              Inr \<lparr> tag_name = t, commit_id = '''', author = None, date = None, message = None,
                    repository_name = n, repository_url = u,
                    tag_url = u @ ''/releases/tag/'' @ t, repository_path = None \<rparr>)"
proof (intro conjI)
  have found: "\<And>n u t. \<exists>m. found_tag_info env org n u t = Inr m"
    using found_tag_info_ok[of env org] assms(4,5) by blast
  show "\<exists>r. scan_organization_for_tag env org tag_version include_patterns = Inr r \<and>
             total_repositories_scanned r = length repos"
    using assms(1,2,3) found by (rule scan_organization_for_tag_ok)
  show "\<exists>r. scan_organization_for_patterns env org version_pattern max_results = Inr r \<and>
             total_repositories_scanned r = length repos"
    using assms(1,2,3) found by (rule scan_organization_for_patterns_ok)
  show "\<forall>repo d rest found pats.
            gh_api_tags env (tags_command org (repo_name_of repo)) = GhRaises d \<and>
            str_contains ''404'' d \<longrightarrow>
              scan_tag_repos env org pats (repo # rest) found
                = scan_tag_repos env org pats rest found \<and>
              scan_pattern_repos env org pats max_results (repo # rest) found
                = scan_pattern_repos env org pats max_results rest found"
    using skip_repo_on_404 by blast
  show "\<forall>n t d. gh_api_tag_ref env [''api'', ''repos/'' @ org @ ''/'' @ n @ ''/git/refs/tags/'' @ t]
                     = GhRaises d \<longrightarrow> get_tag_commit_info env org n t = Inr None"
    using commit_info_lookup_failures(1) by blast
  show "\<forall>n t tag_ref sha d.
            gh_api_tag_ref env [''api'', ''repos/'' @ org @ ''/'' @ n @ ''/git/refs/tags/'' @ t]
              = GhReturns tag_ref \<and>
            tag_ref_sha tag_ref = Inr (Some sha) \<and>
            gh_api_commit env [''api'', ''repos/'' @ org @ ''/'' @ n @ ''/commits/'' @ sha]
              = GhRaises d \<longrightarrow> get_tag_commit_info env org n t = Inr None"
    using commit_info_lookup_failures(2) by blast
  show "\<forall>n u t. get_tag_commit_info env org n t = Inr None \<longrightarrow>
            found_tag_info env org n u t =
              Inr \<lparr> tag_name = t, commit_id = '''', author = None, date = None, message = None,
                    repository_name = n, repository_url = u,
                    tag_url = u @ ''/releases/tag/'' @ t, repository_path = None \<rparr>"
    using found_tag_info_degraded by blast
qed

lemma demo_env_tolerant:
  "repo \<in> set demo_repos \<Longrightarrow>
   gh_api_tags demo_env (tags_command ''acme'' (repo_name_of repo)) = GhRaises d \<Longrightarrow>
   str_contains ''404'' d"
  by (auto simp: demo_repos_def demo_env_def tags_command_def repo_name_of_def
           split: if_splits)

lemma demo_env_shapes:
  "gh_api_tag_ref demo_env cmd = GhReturns tag_ref \<Longrightarrow> tag_ref_shape_ok tag_ref"
  "gh_api_commit demo_env cmd' = GhReturns reply \<Longrightarrow> commit_shape_ok reply"
  by (auto simp: demo_env_def tag_ref_shape_ok_def commit_shape_ok_def split: if_splits)

theorem scan_tolerates_404_and_failed_commit_lookups_witness:
  "check_github_cli demo_env \<and>
   get_repositories demo_env ''acme'' = Inr demo_repos \<and>
   gh_api_tags demo_env (tags_command ''acme'' ''svc-x'') = GhRaises ''GitHub CLI error: HTTP 404'' \<and>
   str_contains ''404'' ''GitHub CLI error: HTTP 404'' \<and>
   gh_api_tag_ref demo_env [''api'', ''repos/acme/svc-a/git/refs/tags/0.75.5'']
     = GhReturns (RefDict (ObjDict (Str ''abc1234''))) \<and>
   tag_ref_shape_ok (RefDict (ObjDict (Str ''abc1234''))) \<and>
   gh_api_tag_ref demo_env [''api'', ''repos/acme/svc-b/git/refs/tags/v0.75.5'']
     = GhRaises ''GitHub CLI command timed out'' \<and>
   get_tag_commit_info demo_env ''acme'' ''svc-b'' ''v0.75.5'' = Inr None \<and>
   (\<exists>r. scan_organization_for_tag demo_env ''acme'' ''0.75.5'' True = Inr r \<and>
        total_repositories_scanned r = 3 \<and>
        tags_found r = [demo_release_match, demo_match ''svc-b'' ''v0.75.5''])"
proof -
  note inst = scan_tolerates_404_and_failed_commit_lookups
         [where tag_version = "''0.75.5''" and include_patterns = True and version_pattern = "''0.75''"
            and max_results = 50, OF demo_env_auth demo_get_repositories]
  have x: "gh_api_tags demo_env (tags_command ''acme'' ''svc-x'') = GhRaises ''GitHub CLI error: HTTP 404''"
    by (simp add: demo_env_def tags_command_def)
  have c: "str_contains ''404'' ''GitHub CLI error: HTTP 404''"
    by simp
  have ra: "gh_api_tag_ref demo_env [''api'', ''repos/acme/svc-a/git/refs/tags/0.75.5'']
              = GhReturns (RefDict (ObjDict (Str ''abc1234'')))"
    by (simp add: demo_env_def)
  have rb: "gh_api_tag_ref demo_env [''api'', ''repos/'' @ ''acme'' @ ''/'' @ ''svc-b'' @ ''/git/refs/tags/'' @ ''v0.75.5'']
              = GhRaises ''GitHub CLI command timed out''"
    by (simp add: demo_env_def)
  have all: "(\<exists>r. scan_organization_for_tag demo_env ''acme'' ''0.75.5'' True = Inr r \<and>
                 total_repositories_scanned r = length demo_repos) \<and>
             (\<forall>n t d. gh_api_tag_ref demo_env [''api'', ''repos/'' @ ''acme'' @ ''/'' @ n @ ''/git/refs/tags/'' @ t]
                     = GhRaises d \<longrightarrow> get_tag_commit_info demo_env ''acme'' n t = Inr None)"
    using inst demo_env_tolerant demo_env_shapes by blast
  then have nb: "get_tag_commit_info demo_env ''acme'' ''svc-b'' ''v0.75.5'' = Inr None"
    using rb by blast
  have "tag_ref_shape_ok (RefDict (ObjDict (Str ''abc1234'')))"
    using demo_env_shapes(1)[OF ra] .
  then show ?thesis
    using all x c ra rb nb demo_env_auth demo_get_repositories by (simp add: demo_scan_tag)
qed

lemma timeout_env_found:
  "found_tag_info timeout_env org n u t = found_tag_info demo_env org n u t"
proof -
  have same: "gh_api_tag_ref timeout_env = gh_api_tag_ref demo_env"
       "gh_api_commit timeout_env = gh_api_commit demo_env"
    by (simp_all add: timeout_env_def)
  show ?thesis
    by (simp only: found_tag_info_def get_tag_commit_info_def same)
qed

text \<open>
  C2 as stated fails: when the tag listing of one repository fails without \<open>404\<close> in the
  detail (here a timeout on \<open>svc-x\<close>), \<open>get_repository_tags\<close> raises it again and the
  whole scan fails.
\<close>

theorem scan_aborts_on_other_lookup_failure:
  "gh_api_tags timeout_env (tags_command ''acme'' ''svc-x'') = GhRaises ''GitHub CLI command timed out'' \<and>
   get_repository_tags timeout_env ''acme'' ''svc-a'' = Inr [''0.75.5'', ''v0.75.5'', ''0.750''] \<and>
   get_repository_tags timeout_env ''acme'' ''svc-b'' = Inr [''v0.75.5'', ''1.0.0'', ''v''] \<and>
   scan_organization_for_tag timeout_env ''acme'' ''0.75.5'' True =
     Inl (HTTPException 500 ''Scan failed: 500: GitHub CLI command timed out'') \<and>
   scan_organization_for_patterns timeout_env ''acme'' ''0.75'' 50 =
     Inl (HTTPException 500 ''Pattern scan failed: 500: GitHub CLI command timed out'')"
proof -
  have env: "gh_auth_status timeout_env" "gh_repo_list timeout_env = gh_repo_list demo_env"
    "exception_str timeout_env (HTTPException 500 ''GitHub CLI command timed out'')
       = ''500: GitHub CLI command timed out''"
    by (simp_all add: timeout_env_def demo_env_def)
  have repos: "get_repositories timeout_env ''acme'' = Inr demo_repos"
    using demo_get_repositories by (simp add: get_repositories_def env)
  have x: "gh_api_tags timeout_env (tags_command ''acme'' ''svc-x'') = GhRaises ''GitHub CLI command timed out''"
    by (simp add: timeout_env_def tags_command_def)
  have tx: "get_repository_tags timeout_env ''acme'' ''svc-x''
              = Inl (HTTPException 500 ''GitHub CLI command timed out'')"
    by (simp add: get_repository_tags_def x)
  have ta: "get_repository_tags timeout_env ''acme'' ''svc-a'' = Inr [''0.75.5'', ''v0.75.5'', ''0.750'']"
    by (simp add: get_repository_tags_def tags_command_def timeout_env_def demo_env_def)
  have tb: "get_repository_tags timeout_env ''acme'' ''svc-b'' = Inr [''v0.75.5'', ''1.0.0'', ''v'']"
    by (simp add: get_repository_tags_def tags_command_def timeout_env_def demo_env_def)
  have s1: "scan_tag_repos timeout_env ''acme'' (tag_patterns ''0.75.5'' True) demo_repos []
              = Inl (HTTPException 500 ''GitHub CLI command timed out'')"
    by (simp add: demo_repos_def repo_name_of_def repo_url_of_def ta tx tag_patterns_def
          timeout_env_found demo_found_release)
  have s2: "scan_pattern_repos timeout_env ''acme'' (regex_patterns ''0.75'') 50 demo_repos []
              = Inl (HTTPException 500 ''GitHub CLI command timed out'')"
    by (simp add: demo_repos_def repo_name_of_def repo_url_of_def ta tx
          timeout_env_found demo_found_release demo_found_degraded tag_matches_regex_patterns)
  show ?thesis
    by (simp add: x ta tb scan_organization_for_tag_def scan_tag_try_def
          scan_organization_for_patterns_def scan_patterns_try_def check_github_cli_def
          env repos s1 s2)
qed

lemma list_reference_aborts_scan:
  "gh_api_tag_ref list_ref_env [''api'', ''repos/acme/svc-b/git/refs/tags/v0.75.5'']
     = GhReturns RefNotDict \<and>
   get_tag_commit_info list_ref_env ''acme'' ''svc-b'' ''v0.75.5'' = Inl AttributeError \<and>
   scan_organization_for_tag list_ref_env ''acme'' ''0.75.5'' True =
     Inl (HTTPException 500
            (''Scan failed: '' @ [CHR 0x27] @ ''list'' @ [CHR 0x27] @ '' object has no attribute '' @
             [CHR 0x27] @ ''get'' @ [CHR 0x27]))"
proof -
  have env: "gh_auth_status list_ref_env" "gh_repo_list list_ref_env = gh_repo_list demo_env"
    "gh_api_tags list_ref_env = gh_api_tags demo_env"
    "exception_str list_ref_env AttributeError =
       [CHR 0x27] @ ''list'' @ [CHR 0x27] @ '' object has no attribute '' @
       [CHR 0x27] @ ''get'' @ [CHR 0x27]"
    by (simp_all add: list_ref_env_def demo_env_def)
  have repos: "get_repositories list_ref_env ''acme'' = Inr demo_repos"
    using demo_get_repositories by (simp add: get_repositories_def env)
  have tgs: "get_repository_tags list_ref_env ''acme'' n = get_repository_tags demo_env ''acme'' n" for n
    by (simp add: get_repository_tags_def env)
  have r: "gh_api_tag_ref list_ref_env [''api'', ''repos/acme/svc-b/git/refs/tags/v0.75.5'']
             = GhReturns RefNotDict"
    by (simp add: list_ref_env_def)
  have ci: "get_tag_commit_info list_ref_env ''acme'' ''svc-b'' ''v0.75.5'' = Inl AttributeError"
    using get_tag_commit_info_unexpected_reference[of list_ref_env "''acme''" "''svc-b''" "''v0.75.5''" RefNotDict]
      r by (simp add: tag_ref_shape_ok_def)
  have same: "gh_api_commit list_ref_env = gh_api_commit demo_env"
    "gh_api_tag_ref list_ref_env
       [''api'', ''repos/'' @ ''acme'' @ ''/'' @ ''svc-a'' @ ''/git/refs/tags/'' @ ''0.75.5'']
     = gh_api_tag_ref demo_env
       [''api'', ''repos/'' @ ''acme'' @ ''/'' @ ''svc-a'' @ ''/git/refs/tags/'' @ ''0.75.5'']"
    by (simp_all add: list_ref_env_def)
  have "get_tag_commit_info list_ref_env ''acme'' ''svc-a'' ''0.75.5''
          = get_tag_commit_info demo_env ''acme'' ''svc-a'' ''0.75.5''"
    by (simp only: get_tag_commit_info_def same)
  then have fa: "found_tag_info list_ref_env ''acme'' ''svc-a'' ''https://gh/acme/svc-a'' ''0.75.5''
              = Inr demo_release_match"
    using demo_found_release by (simp only: found_tag_info_def)
  have fb: "found_tag_info list_ref_env ''acme'' ''svc-b'' ''https://gh/acme/svc-b'' ''v0.75.5''
              = Inl AttributeError"
    by (simp add: found_tag_info_def ci)
  have s: "scan_tag_repos list_ref_env ''acme'' (tag_patterns ''0.75.5'' True) demo_repos []
              = Inl AttributeError"
    by (simp add: demo_repos_def repo_name_of_def repo_url_of_def tgs demo_tags_a demo_tags_x
          demo_tags_b tag_patterns_def startswith_def fa fb)
  show ?thesis
    using r ci
    by (simp add: scan_organization_for_tag_def scan_tag_try_def check_github_cli_def
          env repos s)
qed




lemma dollar_accepts_final_newline:
  "tag_matches (regex_patterns ''0.75'') [CHR ''0'', CHR ''.'', CHR ''7'', CHR ''5'', CHR 0x0A] \<and>
   re_match [CHR ''^'', CHR ''0'', CHR 0x5C, CHR ''.'', CHR ''7'', CHR ''5'', CHR ''$'']
            [CHR ''0'', CHR ''.'', CHR ''7'', CHR ''5'', CHR 0x0A] = Some True"
  by (simp add: tag_matches_def regex_patterns_def re_escape_def re_special_chars_def
        re_match_def is_ascii_alnum_def)

text \<open>
  C5. A tag name is the name of a git reference and has no newline in it. For every
  pattern, empty or not, and every tag without a newline, the predicate of the pattern
  scan accepts the tag exactly when the tag is the pattern, or \<open>v\<close> and the pattern, or
  starts with the pattern and a dot, or with \<open>v\<close>, the pattern and a dot. The four
  rules consist of literal characters only, between \<open>^\<close> and \<open>$\<close>: every character of
  the pattern stands for itself. (Only on a string with a newline does the predicate
  accept more: \<open>$\<close> also holds before a newline that ends the string, lemma
  \<open>dollar_accepts_final_newline\<close>.)
\<close>

theorem pattern_predicate_literal_prefix:
  assumes "CHR 0x0A \<notin> set tag"
  shows "(tag_matches (regex_patterns version_pattern) tag \<longleftrightarrow>
            tag = version_pattern \<or> tag = ''v'' @ version_pattern \<or>
            prefix (version_pattern @ ''.'') tag \<or>
            prefix (''v'' @ version_pattern @ ''.'') tag) \<and>
         map re_parse (regex_patterns version_pattern) =
           [ Some (Bol # map Lit (version_pattern @ ''.'')),
             Some (Bol # map Lit (''v'' @ version_pattern @ ''.'')),
             Some (Bol # map Lit version_pattern @ [Eol]),
             Some (Bol # map Lit (''v'' @ version_pattern) @ [Eol]) ]"
proof -
  have "tag \<noteq> version_pattern @ [CHR 0x0A]" "tag \<noteq> ''v'' @ version_pattern @ [CHR 0x0A]"
    using assms by auto
  then have "tag_matches (regex_patterns version_pattern) tag \<longleftrightarrow>
            tag = version_pattern \<or> tag = ''v'' @ version_pattern \<or>
            prefix (version_pattern @ ''.'') tag \<or>
            prefix (''v'' @ version_pattern @ ''.'') tag"
    using tag_matches_regex_patterns[of version_pattern tag] by blast
  then show ?thesis
    using regex_patterns_parse[of version_pattern] by blast
qed

theorem pattern_predicate_literal_prefix_witness:
  "CHR 0x0A \<notin> set ''0.75.5'' \<and> tag_matches (regex_patterns ''0.75'') ''0.75.5'' \<and>
   CHR 0x0A \<notin> set ''v0.75.5'' \<and> tag_matches (regex_patterns ''0.75'') ''v0.75.5'' \<and>
   CHR 0x0A \<notin> set ''0.75'' \<and> tag_matches (regex_patterns ''0.75'') ''0.75'' \<and>
   CHR 0x0A \<notin> set ''v0.75'' \<and> tag_matches (regex_patterns ''0.75'') ''v0.75'' \<and>
   CHR 0x0A \<notin> set ''0.750'' \<and> \<not> tag_matches (regex_patterns ''0.75'') ''0.750'' \<and>
   CHR 0x0A \<notin> set ''1x0'' \<and> \<not> tag_matches (regex_patterns ''1.0'') ''1x0''"
proof -
  have n: "CHR 0x0A \<notin> set ''0.75.5''" "CHR 0x0A \<notin> set ''v0.75.5''" "CHR 0x0A \<notin> set ''0.75''"
    "CHR 0x0A \<notin> set ''v0.75''" "CHR 0x0A \<notin> set ''0.750''" "CHR 0x0A \<notin> set ''1x0''"
    by simp_all
  from pattern_predicate_literal_prefix[OF n(1), of "''0.75''"]
       pattern_predicate_literal_prefix[OF n(2), of "''0.75''"]
       pattern_predicate_literal_prefix[OF n(3), of "''0.75''"]
       pattern_predicate_literal_prefix[OF n(4), of "''0.75''"]
       pattern_predicate_literal_prefix[OF n(5), of "''0.75''"]
       pattern_predicate_literal_prefix[OF n(6), of "''1.0''"]
  show ?thesis by simp
qed

section \<open>Dicts and the merge\<close>

lemma map_of_dict_set: "map_of (dict_set k v d) = (map_of d)(k \<mapsto> v)"
  by (induction d) (auto simp: fun_eq_iff)

lemma keys_dict_set:
  "map fst (dict_set k v d) = (if k \<in> set (map fst d) then map fst d else map fst d @ [k])"
  by (induction d) (force split: if_splits)+

lemma dict_ok_dict_set: "dict_ok d \<Longrightarrow> dict_ok (dict_set k v d)"
  by (simp add: dict_ok_def keys_dict_set)

lemma set_dict_set: "set (dict_set k v d) \<subseteq> insert (k, v) (set d)"
  by (induction d) (auto split: if_splits)

lemma dict_update_Cons: "dict_update d ((k, v) # other) = dict_update (dict_set k v d) other"
  by (simp add: dict_update_def)

lemma dict_update_Nil: "dict_update d [] = d"
  by (simp add: dict_update_def)

lemma map_of_dict_update:
  "dict_ok other \<Longrightarrow> map_of (dict_update d other) = map_of d ++ map_of other"
proof (induction other arbitrary: d)
  case Nil
  show ?case by (simp add: dict_update_Nil)
next
  case (Cons kv other)
  obtain k v where kv: "kv = (k, v)" by (cases kv)
  from Cons.prems kv have ok: "dict_ok other" and fresh: "k \<notin> fst ` set other"
    by (auto simp: dict_ok_def)
  have none: "map_of other k = None"
    using fresh by (simp add: map_of_eq_None_iff)
  have "map_of (dict_update d (kv # other)) = (map_of d)(k \<mapsto> v) ++ map_of other"
    unfolding kv dict_update_Cons using Cons.IH[OF ok, of "dict_set k v d"]
    by (simp only: map_of_dict_set)
  also have "\<dots> = map_of d ++ map_of (kv # other)"
    using none by (auto simp: kv fun_eq_iff map_add_def split: option.splits)
  finally show ?case .
qed


lemma set_dict_update: "set (dict_update d other) \<subseteq> set d \<union> set other"
proof (induction other arbitrary: d)
  case Nil
  show ?case by (simp add: dict_update_Nil)
next
  case (Cons kv other)
  obtain k v where kv: "kv = (k, v)" by (cases kv)
  show ?case
    using Cons.IH[of "dict_set k v d"] set_dict_set[of k v d]
    by (auto simp: kv dict_update_Cons)
qed

lemma merge_heap_value:
  assumes "read_dataset h a = Some A" and "read_dataset h b = Some B"
  shows "\<exists>h' r. merge_scan_results_heap h a b = Some (h', r) \<and>
                read_dataset h' r = Some (merge_scan_results A B)"
proof -
  from assms(1) obtain em et es where
    a: "a < length h" "h ! a = DatasetObj em et es" and
    em: "em < length h" "h ! em = MetadataObj (metadata A)" and
    et: "et < length h" "h ! et = TagsObj (tags A)" and
    es: "es < length h" "h ! es = StatisticsObj (statistics A)"
    by (auto simp: read_dataset_def heap_get_def
             split: option.splits py_object.splits if_splits)
  from assms(2) obtain nm nt ns where
    b: "b < length h" "h ! b = DatasetObj nm nt ns" and
    nm: "nm < length h" "h ! nm = MetadataObj (metadata B)" and
    nt: "nt < length h" "h ! nt = TagsObj (tags B)"
    by (auto simp: read_dataset_def heap_get_def
             split: option.splits py_object.splits if_splits)
  have ne: "nm \<noteq> et" using nm(2) et(2) by auto
  show ?thesis
    using a em et es b nm nt ne
    by (auto simp: merge_scan_results_heap_def merge_scan_results_def read_dataset_def
          heap_get_def heap_put_def heap_alloc_def Let_def nth_append nth_list_update)
qed



lemma demo_heap_reads:
  "read_dataset demo_heap 0 = Some demo_existing"
  "read_dataset demo_heap 4 = Some demo_incoming"
  by (simp_all add: read_dataset_def heap_get_def demo_heap_def demo_existing_def
        demo_incoming_def)

lemma demo_tags_ok: "dict_ok existing_tags" "dict_ok incoming_tags"
  by (simp_all add: dict_ok_def existing_tags_def incoming_tags_def)

lemma demo_merged_tags:
  "dict_update existing_tags incoming_tags =
     [ (''1.0.0'', make_tag_group ''1.0.0'' [demo_record ''svc-a'' ''2023-06-01T00:00:00Z'']),
       (''2.0.0'', make_tag_group ''2.0.0'' [demo_record ''svc-c'' ''2024-04-01T00:00:00Z'']),
       (''3.0.0'', make_tag_group ''3.0.0'' [demo_record ''svc-a'' ''2024-05-01T00:00:00Z'']) ]"
  by (simp add: dict_update_def existing_tags_def incoming_tags_def)

text \<open>
  C1 at an input where the code departs from it: the two datasets of \<open>demo_heap\<close>. The
  call returns a new outer dict, but \<open>existing_data\<close> then reads with the merged tags:
  the group of \<open>2.0.0\<close> is replaced and \<open>3.0.0\<close> is added. Its metadata and statistics
  and the whole of \<open>new_data\<close> are as before.
\<close>

theorem merge_mutates_existing_tags:
  "read_dataset demo_heap 0 = Some demo_existing \<and>
   read_dataset demo_heap 4 = Some demo_incoming \<and>
   map fst (tags demo_existing) = [''1.0.0'', ''2.0.0''] \<and>
   (\<exists>h' merged.
      merge_scan_results_heap demo_heap 0 4 = Some (h', merged) \<and>
      merged = 8 \<and>
      read_dataset h' 0 = Some (demo_existing\<lparr> tags := dict_update existing_tags incoming_tags \<rparr>) \<and>
      map fst (dict_update existing_tags incoming_tags) = [''1.0.0'', ''2.0.0'', ''3.0.0''] \<and>
      read_dataset h' 0 \<noteq> read_dataset demo_heap 0 \<and>
      read_dataset h' 4 = Some demo_incoming)"
proof -
  have m: "merge_scan_results_heap demo_heap 0 4 =
             Some (demo_heap[2 := TagsObj (dict_update existing_tags incoming_tags)]
                     @ [DatasetObj 5 2 9,
                        StatisticsObj (calc_statistics (dict_update existing_tags incoming_tags))], 8)"
    by (simp add: merge_scan_results_heap_def heap_get_def heap_put_def heap_alloc_def
          demo_heap_def)
  have keys: "map fst (dict_update existing_tags incoming_tags) = [''1.0.0'', ''2.0.0'', ''3.0.0'']"
    by (simp add: demo_merged_tags)
  have keys0: "map fst existing_tags = [''1.0.0'', ''2.0.0'']"
    by (simp add: existing_tags_def)
  have ne: "dict_update existing_tags incoming_tags \<noteq> existing_tags"
  proof
    assume "dict_update existing_tags incoming_tags = existing_tags"
    then have "length (map fst (dict_update existing_tags incoming_tags)) = length (map fst existing_tags)"
      by simp
    then show False by (simp only: keys keys0) simp
  qed
  have r0: "read_dataset (demo_heap[2 := TagsObj (dict_update existing_tags incoming_tags)]
                     @ [DatasetObj 5 2 9,
                        StatisticsObj (calc_statistics (dict_update existing_tags incoming_tags))]) 0
              = Some (demo_existing\<lparr> tags := dict_update existing_tags incoming_tags \<rparr>)"
    by (simp add: read_dataset_def heap_get_def demo_heap_def demo_existing_def)
  have r4: "read_dataset (demo_heap[2 := TagsObj (dict_update existing_tags incoming_tags)]
                     @ [DatasetObj 5 2 9,
                        StatisticsObj (calc_statistics (dict_update existing_tags incoming_tags))]) 4
              = Some demo_incoming"
    by (simp add: read_dataset_def heap_get_def demo_heap_def demo_incoming_def)
  have diff: "demo_existing\<lparr> tags := dict_update existing_tags incoming_tags \<rparr> \<noteq> demo_existing"
    using ne by (simp add: demo_existing_def)
  show ?thesis
    using keys keys0 diff
    by (simp add: m r0 r4 demo_heap_reads) (simp add: demo_existing_def)
qed

text \<open>
  C7. The dataset that merge returns has, for every tag name of the incoming dataset,
  the incoming group, and for every other tag name what the existing dataset has: its
  tags map is the union of both maps, the incoming one winning.
\<close>

theorem merge_right_biased:
  assumes "read_dataset h existing = Some A"
      and "read_dataset h incoming = Some B"
      and "dict_ok (tags B)"
  shows "\<exists>h' merged M.
           merge_scan_results_heap h existing incoming = Some (h', merged) \<and>
           read_dataset h' merged = Some M \<and>
           M = merge_scan_results A B \<and>
           (\<forall>t g. map_of (tags B) t = Some g \<longrightarrow> map_of (tags M) t = Some g) \<and>
           (\<forall>t. map_of (tags B) t = None \<longrightarrow> map_of (tags M) t = map_of (tags A) t) \<and>
           dom (map_of (tags M)) = dom (map_of (tags A)) \<union> dom (map_of (tags B))"
proof -
  from merge_heap_value[OF assms(1,2)] obtain h' r where
    m: "merge_scan_results_heap h existing incoming = Some (h', r)"
       "read_dataset h' r = Some (merge_scan_results A B)"
    by blast
  have t: "map_of (tags (merge_scan_results A B)) = map_of (tags A) ++ map_of (tags B)"
    using map_of_dict_update[OF assms(3), of "tags A"] by (simp add: merge_scan_results_def Let_def)
  have "(\<forall>t g. map_of (tags B) t = Some g \<longrightarrow> map_of (tags (merge_scan_results A B)) t = Some g)"
    by (simp add: t map_add_def)
  moreover have "(\<forall>t. map_of (tags B) t = None \<longrightarrow>
                    map_of (tags (merge_scan_results A B)) t = map_of (tags A) t)"
    by (simp add: t map_add_def)
  moreover have "dom (map_of (tags (merge_scan_results A B)))
                   = dom (map_of (tags A)) \<union> dom (map_of (tags B))"
    by (simp only: t dom_map_add) blast
  ultimately show ?thesis using m by blast
qed

theorem merge_right_biased_witness:
  "read_dataset demo_heap 0 = Some demo_existing \<and>
   read_dataset demo_heap 4 = Some demo_incoming \<and>
   dict_ok (tags demo_incoming) \<and>
   map_of (tags demo_existing) ''2.0.0''
     = Some (make_tag_group ''2.0.0'' [demo_record ''svc-a'' ''2024-01-01T00:00:00Z'',
                                      demo_record ''svc-b'' ''2024-03-01T00:00:00Z'']) \<and>
   (\<exists>h' merged M.
      merge_scan_results_heap demo_heap 0 4 = Some (h', merged) \<and>
      read_dataset h' merged = Some M \<and>
      map_of (tags M) ''2.0.0''
        = Some (make_tag_group ''2.0.0'' [demo_record ''svc-c'' ''2024-04-01T00:00:00Z'']) \<and>
      map_of (tags M) ''1.0.0'' = map_of (tags demo_existing) ''1.0.0'')"
proof -
  have ok: "dict_ok (tags demo_incoming)"
    using demo_tags_ok(2) by (simp add: demo_incoming_def)
  have b: "map_of (tags demo_incoming) ''2.0.0''
             = Some (make_tag_group ''2.0.0'' [demo_record ''svc-c'' ''2024-04-01T00:00:00Z''])"
          "map_of (tags demo_incoming) ''1.0.0'' = None"
    by (simp_all add: demo_incoming_def incoming_tags_def)
  have a: "map_of (tags demo_existing) ''2.0.0''
     = Some (make_tag_group ''2.0.0'' [demo_record ''svc-a'' ''2024-01-01T00:00:00Z'',
                                      demo_record ''svc-b'' ''2024-03-01T00:00:00Z''])"
    by (simp add: demo_existing_def existing_tags_def)
  from merge_right_biased[OF demo_heap_reads ok] obtain h' merged M where
    "merge_scan_results_heap demo_heap 0 4 = Some (h', merged)"
    "read_dataset h' merged = Some M"
    "\<forall>t g. map_of (tags demo_incoming) t = Some g \<longrightarrow> map_of (tags M) t = Some g"
    "\<forall>t. map_of (tags demo_incoming) t = None \<longrightarrow> map_of (tags M) t = map_of (tags demo_existing) t"
    by blast
  with b have "merge_scan_results_heap demo_heap 0 4 = Some (h', merged) \<and>
      read_dataset h' merged = Some M \<and>
      map_of (tags M) ''2.0.0''
        = Some (make_tag_group ''2.0.0'' [demo_record ''svc-c'' ''2024-04-01T00:00:00Z'']) \<and>
      map_of (tags M) ''1.0.0'' = map_of (tags demo_existing) ''1.0.0''"
    by blast
  then show ?thesis
    using demo_heap_reads ok a by blast
qed

section \<open>Statistics\<close>




lemma find_skip: "\<not> P a \<Longrightarrow> find P (a # xs) = find P xs"
  by simp

lemma find_hit: "P a \<Longrightarrow> find P (a # xs) = Some a"
  by simp







lemma transform_groups_ok:
  "transform_groups gs acc = Inr d \<Longrightarrow> dict_ok acc \<Longrightarrow> dict_ok d"
proof (induction gs acc rule: transform_groups.induct)
  case (1 acc)
  then show ?case by simp
next
  case (2 t repos rest acc)
  from "2.prems"(1) obtain trs where
    trs: "transform_repos repos = Inr trs" and
    rest: "transform_groups rest (dict_set t (make_tag_group t trs) acc) = Inr d"
    by (auto split: sum.splits)
  from "2.IH"[OF trs rest dict_ok_dict_set[OF "2.prems"(2)]] show ?case .
qed

lemma transform_api_response_Inr:
  assumes "transform_api_response sv now response org stype = Inr d"
  shows "transform_groups (group_by_tag (case in_tags_found response of None \<Rightarrow> [] | Some l \<Rightarrow> l)) []
           = Inr (tags d)"
    and "statistics d = calc_statistics (tags d)"
    and "dict_ok (tags d)"
proof -
  from assms obtain td where
    td: "transform_groups (group_by_tag (case in_tags_found response of None \<Rightarrow> [] | Some l \<Rightarrow> l)) []
           = Inr td" and
    d: "tags d = td" "statistics d = calc_statistics td"
    by (auto simp: transform_api_response_def Let_def split: sum.splits)
  show "transform_groups (group_by_tag (case in_tags_found response of None \<Rightarrow> [] | Some l \<Rightarrow> l)) []
           = Inr (tags d)"
    using td d by simp
  show "statistics d = calc_statistics (tags d)"
    using d by simp
  show "dict_ok (tags d)"
    using transform_groups_ok[OF td] d by (simp add: dict_ok_def)
qed

lemma tr_repository_name_enhance_repo:
  "tr_repository_name (enhance_repo config t repo) = tr_repository_name repo"
  by (simp add: enhance_repo_def split: option.splits)


lemma enhance_names:
  "map (\<lambda>(t, g). map tr_repository_name (repositories g)) (recalc_environments (enhance_records config tgs))
     = map (\<lambda>(t, g). map tr_repository_name (repositories g)) tgs"
  by (induction tgs)
     (auto simp: recalc_environments_def enhance_records_def tr_repository_name_enhance_repo)


lemma enhance_keys:
  "map fst (recalc_environments (enhance_records config tgs)) = map fst tgs"
  by (induction tgs) (auto simp: recalc_environments_def enhance_records_def)


lemma demo_transform_repo: "transform_repo (demo_api_tag t repo d) = Inr (demo_record repo d)"
  by (simp add: transform_repo_def demo_api_tag_def demo_record_def get_str_def get_json_def
        extract_email_from_author_def str_find_def)

lemma demo_transform:
  "transform_api_response ''1.0.0'' ''2024-05-02T00:00:00'' demo_response (Some ''acme'') ''specific_tag'' =
     Inr \<lparr> metadata = \<lparr> last_updated = ''2024-05-02T00:00:00Z'', md_scan_duration_seconds = 2,
                        organization = ''acme'', md_total_repositories_scanned = 3,
                        scan_type = ''specific_tag'', version = ''1.0.0'' \<rparr>,
           tags = [ (''2.0.0'', make_tag_group ''2.0.0'' [demo_record ''svc-a'' ''2024-01-01T00:00:00Z'',
                                                         demo_record ''svc-b'' ''2024-03-01T00:00:00Z'']),
                    (''1.0.0'', make_tag_group ''1.0.0'' [demo_record ''svc-a'' ''2023-06-01T00:00:00Z'']) ],
           statistics = calc_statistics
                  [ (''2.0.0'', make_tag_group ''2.0.0'' [demo_record ''svc-a'' ''2024-01-01T00:00:00Z'',
                                                         demo_record ''svc-b'' ''2024-03-01T00:00:00Z'']),
                    (''1.0.0'', make_tag_group ''1.0.0'' [demo_record ''svc-a'' ''2023-06-01T00:00:00Z'']) ] \<rparr>"
proof -
  have key: "\<And>t repo d. get_str (in_tag_name (demo_api_tag t repo d)) ''unknown'' = t"
    by (simp add: demo_api_tag_def get_str_def)
  have g: "group_by_tag [ demo_api_tag ''2.0.0'' ''svc-a'' ''2024-01-01T00:00:00Z'',
                          demo_api_tag ''1.0.0'' ''svc-a'' ''2023-06-01T00:00:00Z'',
                          demo_api_tag ''2.0.0'' ''svc-b'' ''2024-03-01T00:00:00Z'' ]
             = [ (''2.0.0'', [demo_api_tag ''2.0.0'' ''svc-a'' ''2024-01-01T00:00:00Z'',
                              demo_api_tag ''2.0.0'' ''svc-b'' ''2024-03-01T00:00:00Z'']),
                 (''1.0.0'', [demo_api_tag ''1.0.0'' ''svc-a'' ''2023-06-01T00:00:00Z'']) ]"
    by (simp add: group_by_tag_def key)
  show ?thesis
    by (simp add: transform_api_response_def demo_response_def g demo_transform_repo)
qed









section \<open>Groups, records and enhancement\<close>

lemma map_of_dict_append:
  "map_of (dict_append k v d) =
     (map_of d)(k \<mapsto> (case map_of d k of None \<Rightarrow> [v] | Some vs \<Rightarrow> vs @ [v]))"
  by (induction d) (auto simp: fun_eq_iff)

lemma keys_dict_append:
  "map fst (dict_append k v d) = (if k \<in> set (map fst d) then map fst d else map fst d @ [k])"
  by (induction d) (force split: if_splits)+

lemma dict_ok_dict_append: "dict_ok d \<Longrightarrow> dict_ok (dict_append k v d)"
  by (simp add: dict_ok_def keys_dict_append)

lemma group_by_tag_snoc:
  "group_by_tag (xs @ [x]) = dict_append (get_str (in_tag_name x) ''unknown'') x (group_by_tag xs)"
  by (simp add: group_by_tag_def)

lemma dict_ok_group_by_tag: "dict_ok (group_by_tag xs)"
proof (induction xs rule: rev_induct)
  case Nil
  show ?case by (simp add: group_by_tag_def dict_ok_def)
next
  case (snoc x xs)
  then show ?case by (simp only: group_by_tag_snoc dict_ok_dict_append)
qed

lemma map_of_group_by_tag:
  "map_of (group_by_tag xs) t =
     (if filter (\<lambda>m. get_str (in_tag_name m) ''unknown'' = t) xs = [] then None
      else Some (filter (\<lambda>m. get_str (in_tag_name m) ''unknown'' = t) xs))"
proof (induction xs arbitrary: t rule: rev_induct)
  case Nil
  show ?case by (simp add: group_by_tag_def)
next
  case (snoc x xs)
  show ?case
    by (simp add: group_by_tag_snoc map_of_dict_append snoc.IH)
qed

lemma group_by_tag_member:
  assumes "(t, ms) \<in> set (group_by_tag xs)"
  shows "ms = filter (\<lambda>m. get_str (in_tag_name m) ''unknown'' = t) xs"
proof -
  have "map_of (group_by_tag xs) t = Some ms"
    using assms dict_ok_group_by_tag[of xs] by (simp add: dict_ok_def)
  then show ?thesis
    by (simp add: map_of_group_by_tag split: if_splits)
qed

lemma transform_repo_name:
  "transform_repo m = Inr r \<Longrightarrow> tr_repository_name r = get_str (in_repository_name m) ''''"
  by (auto simp: transform_repo_def Let_def split: option.splits)

lemma transform_repos_names:
  "transform_repos ms = Inr rs \<Longrightarrow>
   map tr_repository_name rs = map (\<lambda>m. get_str (in_repository_name m) '''') ms"
proof (induction ms arbitrary: rs)
  case Nil
  then show ?case by simp
next
  case (Cons m ms)
  from Cons.prems obtain r rs' where
    r: "transform_repo m = Inr r" and rs': "transform_repos ms = Inr rs'" and rs: "rs = r # rs'"
    by (auto split: sum.splits)
  show ?case
    using Cons.IH[OF rs'] transform_repo_name[OF r] by (simp add: rs)
qed

lemma transform_groups_member:
  "transform_groups gs acc = Inr d \<Longrightarrow> (t, g) \<in> set d \<Longrightarrow>
   (t, g) \<in> set acc \<or>
   (\<exists>ms rs. (t, ms) \<in> set gs \<and> transform_repos ms = Inr rs \<and> g = make_tag_group t rs)"
proof (induction gs acc rule: transform_groups.induct)
  case (1 acc)
  then show ?case by simp
next
  case (2 k repos rest acc)
  from "2.prems"(1) obtain rs where
    rs: "transform_repos repos = Inr rs" and
    rest: "transform_groups rest (dict_set k (make_tag_group k rs) acc) = Inr d"
    by (auto split: sum.splits)
  from "2.IH"[OF rs rest "2.prems"(2)]
  consider "(t, g) \<in> set (dict_set k (make_tag_group k rs) acc)"
    | "\<exists>ms rs. (t, ms) \<in> set rest \<and> transform_repos ms = Inr rs \<and> g = make_tag_group t rs"
    by blast
  then show ?case
  proof cases
    case 1
    with set_dict_set[of k "make_tag_group k rs" acc]
    have "(t, g) = (k, make_tag_group k rs) \<or> (t, g) \<in> set acc" by blast
    with rs show ?thesis by auto
  next
    case 2
    then show ?thesis by auto
  qed
qed

lemma distinct_pairs_filter:
  "distinct (map (\<lambda>m. (k m, n m)) xs) \<Longrightarrow> distinct (map n (filter (\<lambda>m. k m = t) xs))"
  by (induction xs) (auto simp: image_iff)

lemma unique_repository_names_iff:
  "unique_repository_names tgs \<longleftrightarrow>
     (\<forall>(t, g) \<in> set tgs. distinct (map tr_repository_name (repositories g)))"
  by (simp add: unique_repository_names_def list_all_iff)

lemma unique_names_enhance:
  assumes "unique_repository_names (tags data)"
  shows "unique_repository_names (tags (enhance_with_deployment_info data config))"
proof -
  have "list_all (\<lambda>ns. distinct ns)
          (map (\<lambda>(t, g). map tr_repository_name (repositories g)) (tags data))"
    using assms by (simp add: unique_repository_names_def list_all_iff split_def)
  then have "list_all (\<lambda>ns. distinct ns)
          (map (\<lambda>(t, g). map tr_repository_name (repositories g))
             (recalc_environments (enhance_records config (tags data))))"
    by (simp only: enhance_names)
  then show ?thesis
    by (simp add: unique_repository_names_def list_all_iff split_def
          enhance_with_deployment_info_def)
qed

lemma unique_names_merge:
  assumes "unique_repository_names (tags A)" and "unique_repository_names (tags B)"
  shows "unique_repository_names (tags (merge_scan_results A B))"
  using assms set_dict_update[of "tags A" "tags B"]
  by (auto simp: unique_repository_names_iff merge_scan_results_def Let_def)


lemma transform_group_names:
  assumes "transform_api_response schema_version now response org stype = Inr d"
      and "(t, g) \<in> set (tags d)"
  shows "map tr_repository_name (repositories g)
           = map match_repository (filter (\<lambda>m. match_tag m = t) (response_matches response))"
proof -
  have "transform_groups (group_by_tag (response_matches response)) [] = Inr (tags d)"
    using transform_api_response_Inr(1)[OF assms(1)] by (simp add: response_matches_def)
  from transform_groups_member[OF this assms(2)] obtain ms rs where
    ms: "(t, ms) \<in> set (group_by_tag (response_matches response))" and
    rs: "transform_repos ms = Inr rs" and
    g: "g = make_tag_group t rs"
    by auto
  have "ms = filter (\<lambda>m. match_tag m = t) (response_matches response)"
    using group_by_tag_member[OF ms] by (simp add: match_tag_def)
  moreover have "map tr_repository_name rs = map match_repository ms"
    using transform_repos_names[OF rs] by (simp add: match_repository_def)
  moreover have "repositories g = rs"
    by (simp add: g make_tag_group_def)
  ultimately show ?thesis by simp
qed

text \<open>
  C3, as the code has it. Aggregation files one record per match under the match's tag
  name, in the order of the matches, and replaces nothing: the repository names of a
  group are those of the matches with its tag name. So they are pairwise distinct when
  no two matches have the same tag name and repository name. Enhancement and merge keep
  the names within every group pairwise distinct.
\<close>

theorem group_records_follow_matches:
  assumes "transform_api_response schema_version now response org stype = Inr d"
  shows "(\<forall>(t, g) \<in> set (tags d).
            map tr_repository_name (repositories g)
              = map match_repository (filter (\<lambda>m. match_tag m = t) (response_matches response))) \<and>
         (distinct (map (\<lambda>m. (match_tag m, match_repository m)) (response_matches response)) \<longrightarrow>
            unique_repository_names (tags d)) \<and>
         (unique_repository_names (tags data) \<longrightarrow>
            unique_repository_names (tags (enhance_with_deployment_info data config))) \<and>
         (unique_repository_names (tags A) \<and> unique_repository_names (tags B) \<longrightarrow>
            unique_repository_names (tags (merge_scan_results A B)))"
proof (intro conjI impI)
  show names: "\<forall>(t, g) \<in> set (tags d).
            map tr_repository_name (repositories g)
              = map match_repository (filter (\<lambda>m. match_tag m = t) (response_matches response))"
    using transform_group_names[OF assms] by blast
  assume "distinct (map (\<lambda>m. (match_tag m, match_repository m)) (response_matches response))"
  then have "\<And>t. distinct (map match_repository (filter (\<lambda>m. match_tag m = t) (response_matches response)))"
    by (rule distinct_pairs_filter)
  with names show "unique_repository_names (tags d)"
    by (auto simp: unique_repository_names_iff)
next
  assume "unique_repository_names (tags data)"
  then show "unique_repository_names (tags (enhance_with_deployment_info data config))"
    by (rule unique_names_enhance)
next
  assume "unique_repository_names (tags A) \<and> unique_repository_names (tags B)"
  then show "unique_repository_names (tags (merge_scan_results A B))"
    using unique_names_merge by blast
qed

theorem group_records_follow_matches_witness:
  "(\<exists>d. transform_api_response ''1.0.0'' ''2024-05-02T00:00:00'' demo_response (Some ''acme'') ''specific_tag''
          = Inr d \<and>
        map (\<lambda>(t, g). (t, map tr_repository_name (repositories g))) (tags d)
          = [(''2.0.0'', [''svc-a'', ''svc-b'']), (''1.0.0'', [''svc-a''])] \<and>
        unique_repository_names (tags d) \<and>
        unique_repository_names (tags (enhance_with_deployment_info d demo_config))) \<and>
   distinct (map (\<lambda>m. (match_tag m, match_repository m)) (response_matches demo_response))"
proof -
  obtain d where d:
    "transform_api_response ''1.0.0'' ''2024-05-02T00:00:00'' demo_response (Some ''acme'') ''specific_tag''
       = Inr d"
    "tags d = [ (''2.0.0'', make_tag_group ''2.0.0'' [demo_record ''svc-a'' ''2024-01-01T00:00:00Z'',
                                                     demo_record ''svc-b'' ''2024-03-01T00:00:00Z'']),
                (''1.0.0'', make_tag_group ''1.0.0'' [demo_record ''svc-a'' ''2023-06-01T00:00:00Z'']) ]"
    using demo_transform by simp
  have dist: "distinct (map (\<lambda>m. (match_tag m, match_repository m)) (response_matches demo_response))"
    by (simp add: response_matches_def demo_response_def match_tag_def match_repository_def
          demo_api_tag_def get_str_def)
  have names: "map (\<lambda>(t, g). (t, map tr_repository_name (repositories g))) (tags d)
          = [(''2.0.0'', [''svc-a'', ''svc-b'']), (''1.0.0'', [''svc-a''])]"
    by (simp add: d(2) make_tag_group_def demo_record_def)
  from group_records_follow_matches[OF d(1), of d demo_config] dist
  have u: "unique_repository_names (tags d)"
    and e: "unique_repository_names (tags (enhance_with_deployment_info d demo_config))"
    by blast+
  show ?thesis
  proof (intro conjI exI[where x = d])
    show "transform_api_response ''1.0.0'' ''2024-05-02T00:00:00'' demo_response (Some ''acme'') ''specific_tag''
            = Inr d" by (rule d(1))
  qed (rule names u e dist)+
qed

text \<open>
  C3 as stated fails: two matches with the same tag name and repository name (two
  local checkouts with the same directory name) give two records in the group.
\<close>

theorem transform_keeps_duplicate_repository:
  "\<exists>d. transform_api_response ''1.0.0'' ''2024-05-02T00:00:00'' dup_response (Some ''acme'') ''specific_tag''
          = Inr d \<and>
       map (\<lambda>(t, g). (t, map tr_repository_name (repositories g))) (tags d)
         = [(''2.0.0'', [''svc'', ''svc''])] \<and>
       \<not> unique_repository_names (tags d)"
proof -
  have key: "\<And>t repo d. get_str (in_tag_name (demo_api_tag t repo d)) ''unknown'' = t"
    by (simp add: demo_api_tag_def get_str_def)
  have g: "group_by_tag [ demo_api_tag ''2.0.0'' ''svc'' ''2024-01-01T00:00:00Z'',
                          demo_api_tag ''2.0.0'' ''svc'' ''2024-03-01T00:00:00Z'' ]
             = [ (''2.0.0'', [demo_api_tag ''2.0.0'' ''svc'' ''2024-01-01T00:00:00Z'',
                              demo_api_tag ''2.0.0'' ''svc'' ''2024-03-01T00:00:00Z'']) ]"
    by (simp add: group_by_tag_def key)
  have "\<exists>d. transform_api_response ''1.0.0'' ''2024-05-02T00:00:00'' dup_response (Some ''acme'') ''specific_tag''
          = Inr d \<and>
          tags d = [ (''2.0.0'', make_tag_group ''2.0.0'' [demo_record ''svc'' ''2024-01-01T00:00:00Z'',
                                                          demo_record ''svc'' ''2024-03-01T00:00:00Z'']) ]"
    by (simp add: transform_api_response_def dup_response_def g demo_transform_repo)
  then obtain d where d:
    "transform_api_response ''1.0.0'' ''2024-05-02T00:00:00'' dup_response (Some ''acme'') ''specific_tag''
       = Inr d"
    "tags d = [ (''2.0.0'', make_tag_group ''2.0.0'' [demo_record ''svc'' ''2024-01-01T00:00:00Z'',
                                                     demo_record ''svc'' ''2024-03-01T00:00:00Z'']) ]"
    by blast
  have names: "map (\<lambda>(t, g). (t, map tr_repository_name (repositories g))) (tags d)
         = [(''2.0.0'', [''svc'', ''svc''])]"
    by (simp add: d(2) make_tag_group_def demo_record_def)
  have dup: "\<not> unique_repository_names (tags d)"
    by (simp add: unique_repository_names_def d(2) make_tag_group_def demo_record_def)
  show ?thesis
    by (intro conjI exI[where x = d]) (rule d(1) names dup)+
qed

lemma clear_enhance_repo:
  "clear_deployment_repo (enhance_repo config t repo) = clear_deployment_repo repo"
  by (simp add: clear_deployment_repo_def enhance_repo_def split: option.splits)

lemma clear_enhance_tags:
  "map (\<lambda>(t, g). (t, clear_deployment_group g)) (recalc_environments (enhance_records config tgs))
     = map (\<lambda>(t, g). (t, clear_deployment_group g)) tgs"
  by (induction tgs)
     (auto simp: recalc_environments_def enhance_records_def clear_deployment_group_def
        clear_enhance_repo)

lemma enhance_group_fields:
  "map (\<lambda>(t, g). (t, group_tag_name g, length (repositories g), total_repositories (summary g),
                    latest_commit_date (summary g)))
       (recalc_environments (enhance_records config tgs))
     = map (\<lambda>(t, g). (t, group_tag_name g, length (repositories g), total_repositories (summary g),
                    latest_commit_date (summary g))) tgs"
  by (induction tgs) (auto simp: recalc_environments_def enhance_records_def)

text \<open>
  C10. The dataset that deployment enhancement returns differs from its argument only
  in the \<open>deployment_status\<close> and \<open>environment\<close> of records and in the
  \<open>deployment_environments\<close> of summaries: with those blanked the two datasets are
  equal. In particular the metadata, the statistics, the tag names and their order, and
  per group the stored tag name, the number of records, \<open>total_repositories\<close> and
  \<open>latest_commit_date\<close> are unchanged.
\<close>

theorem enhance_changes_deployment_fields_only:
  "clear_deployment (enhance_with_deployment_info data config) = clear_deployment data \<and>
   metadata (enhance_with_deployment_info data config) = metadata data \<and>
   statistics (enhance_with_deployment_info data config) = statistics data \<and>
   map fst (tags (enhance_with_deployment_info data config)) = map fst (tags data) \<and>
   map (\<lambda>(t, g). (t, group_tag_name g, length (repositories g), total_repositories (summary g),
                   latest_commit_date (summary g)))
       (tags (enhance_with_deployment_info data config))
     = map (\<lambda>(t, g). (t, group_tag_name g, length (repositories g), total_repositories (summary g),
                   latest_commit_date (summary g)))
         (tags data)"
  by (simp add: clear_deployment_def enhance_with_deployment_info_def clear_enhance_tags
        enhance_keys enhance_group_fields)

lemma demo_enhance_example:
  "map (\<lambda>(t, g). (t, map (\<lambda>r. (tr_repository_name r, deployment_status r, environment r)) (repositories g),
                   deployment_environments (summary g)))
       (tags (enhance_with_deployment_info demo_existing demo_config))
     = [ (''1.0.0'', [(''svc-a'', ''not_deployed'', ''none'')], {}),
         (''2.0.0'', [(''svc-a'', ''deployed'', ''prod''), (''svc-b'', ''unknown'', ''unknown'')], {''prod''}) ]"
  by (auto simp: enhance_with_deployment_info_def recalc_environments_def enhance_records_def
        enhance_repo_def demo_existing_def existing_tags_def make_tag_group_def demo_record_def
        demo_config_def)

end
